theory Spec2Isabelle
  imports Main "HOL-Library.Sublist" "HOL-Library.AList" "HOL-Library.Word"
begin

unbundle bit_operations_syntax

section \<open>JavaScript values and prototypes (core utilities)\<close>

text \<open>
  The utilities of the core package inspect a value's \<open>typeof\<close>, its truthiness and
  its prototype chain. A value is a primitive or a reference to an object of the heap;
  an object carries its \<open>[[Prototype]]\<close> slot (\<open>None\<close> is \<open>null\<close>), whether it is
  callable (then \<open>typeof\<close> is \<open>function\<close>) and whether it is an array exotic object
  (what \<open>Array.isArray\<close> reads).

  An object may be a Proxy. The \<open>[[GetPrototypeOf]]\<close> of a proxy does not read a slot:
  it throws a TypeError when the proxy has been revoked, and otherwise completes with
  what its handler's trap (or, without a trap, its target) gives: an object, \<open>null\<close>
  or a thrown error. \<open>typeof\<close> and \<open>Array.isArray\<close> look through a proxy to its
  target, so \<open>callable\<close> and \<open>arrayExotic\<close> of a proxy are those of its target.
\<close>

type_synonym ref = nat

datatype jsvalue =
    JUndefined
  | JNull
  | JBoolean bool
  | JNumber int
  | JNaN
  | JString string
  | JSymbol nat
  | JBigInt int
  | JRef ref

datatype jserror = TypeError string

datatype proxy = Revoked | Handler "jserror + ref option"

record jsobject =
  proto :: "ref option"
  callable :: bool
  arrayExotic :: bool
  proxyOf :: "proxy option"

record heap =
  objects :: "ref \<Rightarrow> jsobject"
  wrapperPrototype :: "string \<Rightarrow> ref"
  nextRef :: ref

fun typeof :: "heap \<Rightarrow> jsvalue \<Rightarrow> string" where
  "typeof h JUndefined = ''undefined''"
| "typeof h JNull = ''object''"
| "typeof h (JBoolean b) = ''boolean''"
| "typeof h (JNumber n) = ''number''"
| "typeof h JNaN = ''number''"
| "typeof h (JString s) = ''string''"
| "typeof h (JSymbol s) = ''symbol''"
| "typeof h (JBigInt n) = ''bigint''"
| "typeof h (JRef r) = (if callable (objects h r) then ''function'' else ''object'')"

fun truthy :: "jsvalue \<Rightarrow> bool" where
  "truthy JUndefined = False"
| "truthy JNull = False"
| "truthy (JBoolean b) = b"
| "truthy (JNumber n) = (n \<noteq> 0)"
| "truthy JNaN = False"
| "truthy (JString s) = (s \<noteq> [])"
| "truthy (JSymbol s) = True"
| "truthy (JBigInt n) = (n \<noteq> 0)"
| "truthy (JRef r) = True"

text \<open>
  \<open>Object.getPrototypeOf\<close>: a TypeError on \<open>undefined\<close> and \<open>null\<close>; for an
  object its \<open>[[GetPrototypeOf]]\<close>, which reads the \<open>[[Prototype]]\<close> slot of an
  ordinary object, throws for a revoked proxy and completes as the handler does for a
  live one; for any other primitive the prototype of its wrapper (the argument is
  coerced to an object).
\<close>

definition fromSlot :: "ref option \<Rightarrow> jsvalue" where
  "fromSlot slot = (case slot of None \<Rightarrow> JNull | Some p \<Rightarrow> JRef p)"

fun getPrototypeOf :: "heap \<Rightarrow> jsvalue \<Rightarrow> jserror + jsvalue" where
  "getPrototypeOf h JUndefined = Inl (TypeError ''Cannot convert undefined or null to object'')"
| "getPrototypeOf h JNull = Inl (TypeError ''Cannot convert undefined or null to object'')"
| "getPrototypeOf h (JRef r) =
     (case proxyOf (objects h r) of
        None \<Rightarrow> Inr (fromSlot (proto (objects h r)))
      | Some Revoked \<Rightarrow>
          Inl (TypeError ''Cannot perform getPrototypeOf on a proxy that has been revoked'')
      | Some (Handler (Inl e)) \<Rightarrow> Inl e
      | Some (Handler (Inr slot)) \<Rightarrow> Inr (fromSlot slot))"
| "getPrototypeOf h v = Inr (JRef (wrapperPrototype h (typeof h v)))"

fun isPrimitive :: "jsvalue \<Rightarrow> bool" where
  "isPrimitive (JRef r) = False"
| "isPrimitive v = True"

text \<open>
  \<open>Array.isArray\<close>: false for a primitive, a TypeError for a revoked proxy, and
  otherwise whether the object (for a proxy, its target) is an array.
\<close>

fun Array_isArray :: "heap \<Rightarrow> jsvalue \<Rightarrow> jserror + bool" where
  "Array_isArray h (JRef r) =
     (if proxyOf (objects h r) = Some Revoked
      then Inl (TypeError ''Cannot perform IsArray on a proxy that has been revoked'')
      else Inr (arrayExotic (objects h r)))"
| "Array_isArray h v = Inr False"

text \<open>
  The object-creating built-ins the documentation of \<open>isPlainObject\<close> speaks of: an
  array literal, \<open>Object.create(proto)\<close> and \<open>Object.setPrototypeOf(obj, proto)\<close>
  (\<open>proto\<close> an object or \<open>null\<close>). The realm's \<open>Object.prototype\<close>,
  \<open>Array.prototype\<close> and the prototypes of the wrappers of primitives sit at fixed
  references; each of the latter inherits from \<open>Object.prototype\<close>.
\<close>

definition ObjectPrototype :: ref where
  "ObjectPrototype = 0"

definition ArrayPrototype :: ref where
  "ArrayPrototype = 1"

definition wrapperPrototypes :: "(string \<times> ref) list" where
  "wrapperPrototypes =
     [(''boolean'', 2), (''number'', 3), (''string'', 4), (''symbol'', 5), (''bigint'', 6)]"

definition ordinary :: "ref option \<Rightarrow> jsobject" where
  "ordinary slot = \<lparr> proto = slot, callable = False, arrayExotic = False, proxyOf = None \<rparr>"

definition initialHeap :: heap where
  "initialHeap =
     \<lparr> objects = (\<lambda>r. if r = ObjectPrototype then ordinary None
                       else if r = ArrayPrototype
                       then (ordinary (Some ObjectPrototype))\<lparr> arrayExotic := True \<rparr>
                       else ordinary (Some ObjectPrototype)),
       wrapperPrototype =
         (\<lambda>t. case map_of wrapperPrototypes t of None \<Rightarrow> ObjectPrototype | Some r \<Rightarrow> r),
       nextRef = 7 \<rparr>"

definition alloc :: "heap \<Rightarrow> jsobject \<Rightarrow> jsvalue \<times> heap" where
  "alloc h ob =
     (JRef (nextRef h), h\<lparr> objects := (objects h)(nextRef h := ob), nextRef := Suc (nextRef h) \<rparr>)"

definition arrayLiteral :: "heap \<Rightarrow> jsvalue \<times> heap" where
  "arrayLiteral h = alloc h ((ordinary (Some ArrayPrototype))\<lparr> arrayExotic := True \<rparr>)"

definition objectLiteral :: "heap \<Rightarrow> jsvalue \<times> heap" where
  "objectLiteral h = alloc h (ordinary (Some ObjectPrototype))"

fun protoSlot :: "jsvalue \<Rightarrow> (ref option) option" where
  "protoSlot JNull = Some None"
| "protoSlot (JRef p) = Some (Some p)"
| "protoSlot v = None"

definition Object_create :: "heap \<Rightarrow> jsvalue \<Rightarrow> jserror + (jsvalue \<times> heap)" where
  "Object_create h p =
     (case protoSlot p of
        None \<Rightarrow> Inl (TypeError ''Object prototype may only be an Object or null'')
      | Some slot \<Rightarrow> Inr (alloc h (ordinary slot)))"

text \<open>
  \<open>Object.setPrototypeOf\<close> on an ordinary object (a proxy's \<open>[[SetPrototypeOf]]\<close> is
  its handler's and changes nothing here).
\<close>

fun Object_setPrototypeOf :: "heap \<Rightarrow> jsvalue \<Rightarrow> jsvalue \<Rightarrow> jserror + heap" where
  "Object_setPrototypeOf h (JRef r) p =
     (case protoSlot p of
        None \<Rightarrow> Inl (TypeError ''Object prototype may only be an Object or null'')
      | Some slot \<Rightarrow>
          (case proxyOf (objects h r) of
             None \<Rightarrow> Inr (h\<lparr> objects := (objects h)(r := (objects h r)\<lparr> proto := slot \<rparr>) \<rparr>)
           | Some Revoked \<Rightarrow>
               Inl (TypeError ''Cannot perform setPrototypeOf on a proxy that has been revoked'')
           | Some (Handler c) \<Rightarrow> Inr h))"
| "Object_setPrototypeOf h v p =
     (if v = JUndefined \<or> v = JNull
      then Inl (TypeError ''Object.setPrototypeOf called on null or undefined'')
      else Inr h)"

text \<open>
  \<open>Proxy.revocable(target, {})\<close> followed by \<open>revoke()\<close>: a revoked proxy of an
  ordinary, non-callable target.
\<close>

definition revokedProxy :: "heap \<Rightarrow> jsvalue \<times> heap" where
  "revokedProxy h = alloc h ((ordinary None)\<lparr> proxyOf := Some Revoked \<rparr>)"

subsection \<open>isPlainObject\<close>

text \<open>
  \<^verbatim>\<open>
  export function isPlainObject(value: any) {
    if (typeof value !== 'object' || !value) return false
    const prototype = Object.getPrototypeOf(value)
    if (!prototype) return false // it was created with Object.create(null)
    return Object.getPrototypeOf(prototype) === null
  }
  \<close>
  A call of \<open>Object.getPrototypeOf\<close> that throws ends the function with that error.
\<close>

definition isPlainObject :: "heap \<Rightarrow> jsvalue \<Rightarrow> jserror + bool" where
  "isPlainObject h value =
     (if typeof h value \<noteq> ''object'' \<or> \<not> truthy value then Inr False
      else case getPrototypeOf h value of
             Inl e \<Rightarrow> Inl e
           | Inr prototype \<Rightarrow>
               if \<not> truthy prototype then Inr False
               else case getPrototypeOf h prototype of
                      Inl e \<Rightarrow> Inl e
                    | Inr grandparent \<Rightarrow> Inr (grandparent = JNull))"

text \<open>
  An array whose prototype was explicitly set to \<open>Object.prototype\<close>:
  \<open>const a = []; Object.setPrototypeOf(a, Object.prototype)\<close>.
\<close>

definition resetArray :: "jsvalue \<times> heap" where
  "resetArray =
     (case arrayLiteral initialHeap of
        (a, h) \<Rightarrow> (case Object_setPrototypeOf h a (JRef ObjectPrototype) of
                     Inr h' \<Rightarrow> (a, h')
                   | Inl e \<Rightarrow> (a, h)))"

lemma typeof_object_cases:
  "typeof h v = ''object'' \<longleftrightarrow> v = JNull \<or> (\<exists>r. v = JRef r \<and> \<not> callable (objects h r))"
  by (cases v) auto

lemma getPrototypeOf_ref_cases:
  "(\<exists>e. getPrototypeOf h (JRef r) = Inl e) \<or> getPrototypeOf h (JRef r) = Inr JNull \<or>
   (\<exists>p. getPrototypeOf h (JRef r) = Inr (JRef p))"
  by (auto simp: fromSlot_def split: option.splits proxy.splits sum.splits)

lemma isPlainObject_ref:
  "isPlainObject h (JRef r) =
     (if callable (objects h r) then Inr False
      else case getPrototypeOf h (JRef r) of
             Inl e \<Rightarrow> Inl e
           | Inr JNull \<Rightarrow> Inr False
           | Inr (JRef p) \<Rightarrow>
               (case getPrototypeOf h (JRef p) of
                  Inl e \<Rightarrow> Inl e
                | Inr g \<Rightarrow> Inr (g = JNull))
           | Inr v \<Rightarrow> Inr False)"
  using getPrototypeOf_ref_cases [of h r]
  by (auto simp: isPlainObject_def split: sum.splits jsvalue.splits)

text \<open>
  \<open>isPlainObject\<close> is not total: on a revoked proxy, which is a truthy value of
  \<open>typeof\<close> \<open>object\<close>, the first \<open>Object.getPrototypeOf\<close> throws.
\<close>

lemma isPlainObject_revoked_proxy:
  "\<exists>e. isPlainObject (snd (revokedProxy initialHeap)) (fst (revokedProxy initialHeap)) = Inl e"
  by (simp add: revokedProxy_def alloc_def isPlainObject_def ordinary_def)

text \<open>
  C8, as stated, fails for arrays: an array whose prototype was explicitly set to
  \<open>Object.prototype\<close> is still an array for \<open>Array.isArray\<close>, and
  \<open>isPlainObject\<close> answers \<open>true\<close> for it.
\<close>

theorem isPlainObject_array_counterexample:
  "Array_isArray (snd resetArray) (fst resetArray) = Inr True \<and>
   isPlainObject (snd resetArray) (fst resetArray) = Inr True"
  by (simp add: resetArray_def arrayLiteral_def alloc_def initialHeap_def isPlainObject_def
      ObjectPrototype_def ArrayPrototype_def ordinary_def fromSlot_def)

text \<open>
  C8 (amended). \<open>isPlainObject\<close> returns \<open>true\<close> exactly when its argument is a
  non-null value of \<open>typeof\<close> \<open>object\<close> whose prototype is non-null and whose
  prototype's prototype is \<open>null\<close>. In particular it returns \<open>false\<close> for
  \<open>null\<close>, for every primitive, for every array that has \<open>Array.prototype\<close> for its
  prototype (which inherits from \<open>Object.prototype\<close>), and for every object created
  with \<open>Object.create(null)\<close>.
\<close>

theorem isPlainObject_characterisation:
  "(isPlainObject h v = Inr True \<longleftrightarrow>
      typeof h v = ''object'' \<and> v \<noteq> JNull \<and>
      (\<exists>p. getPrototypeOf h v = Inr (JRef p) \<and> getPrototypeOf h (JRef p) = Inr JNull)) \<and>
   isPlainObject h JNull = Inr False \<and>
   (isPrimitive v \<longrightarrow> isPlainObject h v = Inr False) \<and>
   (Array_isArray h v = Inr True \<and> getPrototypeOf h v = Inr (JRef ArrayPrototype) \<and>
      getPrototypeOf h (JRef ArrayPrototype) = Inr (JRef ObjectPrototype)
      \<longrightarrow> isPlainObject h v = Inr False) \<and>
   (Object_create h JNull = Inr (ob, h') \<longrightarrow> isPlainObject h' ob = Inr False)"
proof (intro conjI impI)
  show "isPlainObject h v = Inr True \<longleftrightarrow>
      typeof h v = ''object'' \<and> v \<noteq> JNull \<and>
      (\<exists>p. getPrototypeOf h v = Inr (JRef p) \<and> getPrototypeOf h (JRef p) = Inr JNull)"
  proof (cases v)
    case (JRef r)
    show ?thesis
      unfolding JRef isPlainObject_ref [of h r]
      using getPrototypeOf_ref_cases [of h r]
      by (auto split: sum.splits)
  qed (simp_all add: isPlainObject_def)
  show "isPlainObject h JNull = Inr False"
    by (simp add: isPlainObject_def)
  show "isPlainObject h v = Inr False" if "isPrimitive v"
    using that by (cases v) (simp_all add: isPlainObject_def)
  show "isPlainObject h v = Inr False"
    if "Array_isArray h v = Inr True \<and> getPrototypeOf h v = Inr (JRef ArrayPrototype) \<and>
        getPrototypeOf h (JRef ArrayPrototype) = Inr (JRef ObjectPrototype)"
  proof (cases v)
    case (JRef r)
    show ?thesis
      unfolding JRef isPlainObject_ref [of h r] using that JRef by simp
  qed (use that in simp_all)
  show "isPlainObject h' ob = Inr False" if "Object_create h JNull = Inr (ob, h')"
    using that
    by (auto simp: Object_create_def alloc_def isPlainObject_def ordinary_def fromSlot_def)
qed

theorem isPlainObject_characterisation_witness:
  "isPlainObject (snd (objectLiteral initialHeap)) (fst (objectLiteral initialHeap)) = Inr True \<and>
   isPrimitive (JString ''a'') \<and> isPlainObject initialHeap (JString ''a'') = Inr False \<and>
   Array_isArray (snd (arrayLiteral initialHeap)) (fst (arrayLiteral initialHeap)) = Inr True \<and>
   getPrototypeOf (snd (arrayLiteral initialHeap)) (fst (arrayLiteral initialHeap))
     = Inr (JRef ArrayPrototype) \<and>
   getPrototypeOf (snd (arrayLiteral initialHeap)) (JRef ArrayPrototype)
     = Inr (JRef ObjectPrototype) \<and>
   isPlainObject (snd (arrayLiteral initialHeap)) (fst (arrayLiteral initialHeap)) = Inr False \<and>
   Object_create initialHeap JNull = Inr (alloc initialHeap (ordinary None)) \<and>
   isPlainObject (snd (alloc initialHeap (ordinary None))) (fst (alloc initialHeap (ordinary None)))
     = Inr False"
proof -
  let ?o = "objectLiteral initialHeap"
  let ?a = "arrayLiteral initialHeap"
  let ?n = "alloc initialHeap (ordinary None)"
  have arr: "Array_isArray (snd ?a) (fst ?a) = Inr True \<and>
      getPrototypeOf (snd ?a) (fst ?a) = Inr (JRef ArrayPrototype) \<and>
      getPrototypeOf (snd ?a) (JRef ArrayPrototype) = Inr (JRef ObjectPrototype)"
    by (simp add: arrayLiteral_def alloc_def initialHeap_def ObjectPrototype_def
        ArrayPrototype_def ordinary_def fromSlot_def)
  have cre: "Object_create initialHeap JNull = Inr (fst ?n, snd ?n)"
    by (simp add: Object_create_def)
  have obj: "typeof (snd ?o) (fst ?o) = ''object'' \<and> fst ?o \<noteq> JNull \<and>
      (\<exists>p. getPrototypeOf (snd ?o) (fst ?o) = Inr (JRef p) \<and>
           getPrototypeOf (snd ?o) (JRef p) = Inr JNull)"
    by (simp add: objectLiteral_def alloc_def initialHeap_def ObjectPrototype_def
        ArrayPrototype_def ordinary_def fromSlot_def)
  show ?thesis
    using isPlainObject_characterisation [of "snd ?o" "fst ?o"] obj
      isPlainObject_characterisation [of initialHeap "JString ''a''"]
      isPlainObject_characterisation [of "snd ?a" "fst ?a"] arr
      isPlainObject_characterisation [of initialHeap _ "fst ?n" "snd ?n"] cre
    by simp
qed

section \<open>The lifecycle enum of the atoms package\<close>

text \<open>
  \<^verbatim>\<open>
  export enum ActiveState {
    Active = 'Active',
    Destroyed = 'Destroyed',
    Destroying = 'Destroying',
    Initializing = 'Initializing',
  }
  \<close>
  A string enum: each member is the string \<open>ActiveState_value\<close> gives.
\<close>

datatype ActiveState = Active | Destroyed | Destroying | Initializing





section \<open>The devtools log view\<close>

text \<open>
  The \<open>Log\<close> component of the StateHub filters the ecosystem's event log by the
  filters selected in the StateHub's atoms. A filter list may be undefined (\<open>None\<close>);
  the three fields of \<open>edgeTypeFilter\<close>, and the fields of that name the filter reads
  from a \<open>DependentEdge\<close>, are booleans that may be undefined.
\<close>

record edgeTypes =
  isExplicit :: "bool option"
  isExternal :: "bool option"
  isStatic :: "bool option"

record atomInfo =
  key :: string
  flags :: "string list option"

text \<open>The fields of an atom instance the filter reads; \<open>activeState\<close> is \<open>_activeState\<close>.\<close>

record AnyAtomInstanceBase =
  activeState :: ActiveState
  atom :: atomInfo
  keyHash :: string

datatype dependent = DependentInstance AnyAtomInstanceBase | DependentString string

record ghost =
  ghostEdge :: edgeTypes
  ghostDependency :: AnyAtomInstanceBase

text \<open>
  The action of a log event, a union discriminated by \<open>action.type\<close>: the payload of
  \<open>edgeCreated\<close> and \<open>edgeRemoved\<close> is \<open>{ dependency, dependent, edge }\<close>, that of
  the ghost edge events is \<open>{ ghost }\<close>, that of the instance events is
  \<open>{ instance }\<close>. \<open>OtherAction t\<close> is an action of any other type \<open>t\<close>.
\<close>

datatype Action =
    EdgeCreated AnyAtomInstanceBase dependent edgeTypes
  | EdgeRemoved AnyAtomInstanceBase dependent edgeTypes
  | GhostEdgeCreated ghost
  | GhostEdgeDestroyed ghost
  | InstanceActiveStateChanged AnyAtomInstanceBase
  | InstanceStateChanged AnyAtomInstanceBase
  | OtherAction string

fun actionType :: "Action \<Rightarrow> string" where
  "actionType (EdgeCreated dependency dep edge) = ''edgeCreated''"
| "actionType (EdgeRemoved dependency dep edge) = ''edgeRemoved''"
| "actionType (GhostEdgeCreated g) = ''ghostEdgeCreated''"
| "actionType (GhostEdgeDestroyed g) = ''ghostEdgeDestroyed''"
| "actionType (InstanceActiveStateChanged i) = ''instanceActiveStateChanged''"
| "actionType (InstanceStateChanged i) = ''instanceStateChanged''"
| "actionType (OtherAction t) = t"

record LogEvent =
  eventId :: nat
  action :: Action

record logFilters =
  atomFilter :: "string list option"
  atomFlagsFilter :: "string list option"
  atomInstanceFilter :: "string list option"
  atomInstanceActiveStateFilter :: "ActiveState list option"
  atomInstanceKeyHashFilter :: "string list option"
  edgeTypeFilter :: edgeTypes
  eventTypeFilter :: "string list option"

text \<open>\<open>xs?.length\<close> as a condition: false for undefined and for the empty list.\<close>

fun hasLength :: "'a list option \<Rightarrow> bool" where
  "hasLength None = False"
| "hasLength (Some xs) = (xs \<noteq> [])"

text \<open>\<open>xs?.includes(v)\<close> and \<open>xs?.some(p)\<close> as conditions: undefined is falsy.\<close>

fun includesOpt :: "'a list option \<Rightarrow> 'a \<Rightarrow> bool" where
  "includesOpt None v = False"
| "includesOpt (Some xs) v = (v \<in> set xs)"

fun someOpt :: "'a list option \<Rightarrow> ('a \<Rightarrow> bool) \<Rightarrow> bool" where
  "someOpt None p = False"
| "someOpt (Some xs) p = list_ex p xs"

text \<open>\<open>String.prototype.toLowerCase\<close> on the ASCII letters, and \<open>String.prototype.includes\<close>.\<close>

definition toLowerChar :: "char \<Rightarrow> char" where
  "toLowerChar c =
     (if 65 \<le> (of_char c :: nat) \<and> (of_char c :: nat) \<le> 90
      then char_of ((of_char c :: nat) + 32) else c)"

definition toLowerCase :: "string \<Rightarrow> string" where
  "toLowerCase s = map toLowerChar s"

fun startsWith :: "string \<Rightarrow> string \<Rightarrow> bool" where
  "startsWith s [] = True"
| "startsWith [] (c # cs) = False"
| "startsWith (d # ds) (c # cs) = (d = c \<and> startsWith ds cs)"

fun includesStr :: "string \<Rightarrow> string \<Rightarrow> bool" where
  "includesStr [] sub = (sub = [])"
| "includesStr (d # ds) sub = (startsWith (d # ds) sub \<or> includesStr ds sub)"

text \<open>
  \<open>Object.values(edgeTypeFilter).filter(val => typeof val !== 'undefined')\<close>
\<close>

definition definedEdgeTypes :: "edgeTypes \<Rightarrow> bool option list" where
  "definedEdgeTypes f = filter (\<lambda>val. val \<noteq> None) [isExplicit f, isExternal f, isStatic f]"

definition noFiltersSelected :: "logFilters \<Rightarrow> bool" where
  "noFiltersSelected f =
     (\<not> hasLength (atomFilter f) \<and>
      \<not> hasLength (atomFlagsFilter f) \<and>
      \<not> hasLength (atomInstanceActiveStateFilter f) \<and>
      \<not> hasLength (atomInstanceFilter f) \<and>
      \<not> hasLength (atomInstanceKeyHashFilter f) \<and>
      definedEdgeTypes (edgeTypeFilter f) = [] \<and>
      \<not> hasLength (eventTypeFilter f))"

definition edgePasses :: "logFilters \<Rightarrow> edgeTypes \<Rightarrow> bool" where
  "edgePasses f edge =
     (if isExplicit (edgeTypeFilter f) \<noteq> None \<and> isExplicit edge \<noteq> isExplicit (edgeTypeFilter f)
      then False
      else if isExternal (edgeTypeFilter f) \<noteq> None \<and> isExternal edge \<noteq> isExternal (edgeTypeFilter f)
      then False
      else if isStatic (edgeTypeFilter f) \<noteq> None \<and> isStatic edge \<noteq> isStatic (edgeTypeFilter f)
      then False
      else True)"

definition instancePasses :: "logFilters \<Rightarrow> AnyAtomInstanceBase \<Rightarrow> bool" where
  "instancePasses f inst =
     (let passesActiveStateFilter =
            (\<not> hasLength (atomInstanceActiveStateFilter f) \<or>
             includesOpt (atomInstanceActiveStateFilter f) (activeState inst))
      in if \<not> hasLength (atomFilter f) \<and>
            \<not> hasLength (atomFlagsFilter f) \<and>
            \<not> hasLength (atomInstanceFilter f) \<and>
            \<not> hasLength (atomInstanceKeyHashFilter f)
         then passesActiveStateFilter
         else (includesOpt (atomFilter f) (key (atom inst)) \<or>
               someOpt (atomFlagsFilter f) (\<lambda>flag. includesOpt (flags (atom inst)) flag) \<or>
               includesOpt (atomInstanceFilter f) (keyHash inst) \<or>
               someOpt (atomInstanceKeyHashFilter f)
                 (\<lambda>partialKeyHash.
                    includesStr (toLowerCase (keyHash inst)) (toLowerCase partialKeyHash))) \<and>
              passesActiveStateFilter)"

text \<open>The callback of \<open>log.filter\<close>.\<close>

definition eventPasses :: "logFilters \<Rightarrow> LogEvent \<Rightarrow> bool" where
  "eventPasses f event =
     (if hasLength (eventTypeFilter f) \<and>
         \<not> includesOpt (eventTypeFilter f) (actionType (action event))
      then False
      else case action event of
             EdgeCreated dependency dep edge \<Rightarrow>
               edgePasses f edge \<and>
               (instancePasses f dependency \<or>
                (case dep of DependentString s \<Rightarrow> False
                           | DependentInstance d \<Rightarrow> instancePasses f d))
           | EdgeRemoved dependency dep edge \<Rightarrow>
               edgePasses f edge \<and>
               (instancePasses f dependency \<or>
                (case dep of DependentString s \<Rightarrow> False
                           | DependentInstance d \<Rightarrow> instancePasses f d))
           | GhostEdgeCreated g \<Rightarrow>
               edgePasses f (ghostEdge g) \<and> instancePasses f (ghostDependency g)
           | GhostEdgeDestroyed g \<Rightarrow>
               edgePasses f (ghostEdge g) \<and> instancePasses f (ghostDependency g)
           | InstanceActiveStateChanged i \<Rightarrow> instancePasses f i
           | InstanceStateChanged i \<Rightarrow> instancePasses f i
           | OtherAction t \<Rightarrow> False)"

definition filteredLog :: "logFilters \<Rightarrow> LogEvent list \<Rightarrow> LogEvent list" where
  "filteredLog f log = (if noFiltersSelected f then log else filter (eventPasses f) log)"

definition graphEventTypes :: "string list" where
  "graphEventTypes =
     [''edgeCreated'', ''edgeRemoved'', ''ghostEdgeCreated'', ''ghostEdgeDestroyed'',
      ''instanceActiveStateChanged'', ''instanceStateChanged'']"

text \<open>A filter list is empty: undefined, or of length 0.\<close>

definition emptyFilter :: "'a list option \<Rightarrow> bool" where
  "emptyFilter xs = (xs = None \<or> xs = Some [])"

definition allFiltersEmpty :: "logFilters \<Rightarrow> bool" where
  "allFiltersEmpty f =
     (emptyFilter (atomFilter f) \<and> emptyFilter (atomFlagsFilter f) \<and>
      emptyFilter (atomInstanceFilter f) \<and> emptyFilter (atomInstanceActiveStateFilter f) \<and>
      emptyFilter (atomInstanceKeyHashFilter f) \<and> emptyFilter (eventTypeFilter f) \<and>
      isExplicit (edgeTypeFilter f) = None \<and> isExternal (edgeTypeFilter f) = None \<and>
      isStatic (edgeTypeFilter f) = None)"

lemma hasLength_emptyFilter: "hasLength xs \<longleftrightarrow> \<not> emptyFilter xs"
  by (cases xs) (auto simp: emptyFilter_def)

lemma noFiltersSelected_iff: "noFiltersSelected f \<longleftrightarrow> allFiltersEmpty f"
  by (auto simp: noFiltersSelected_def allFiltersEmpty_def hasLength_emptyFilter
      definedEdgeTypes_def split: if_splits)

lemma eventPasses_type:
  "eventPasses f e \<Longrightarrow> actionType (action e) \<in> set graphEventTypes"
  by (cases "action e") (auto simp: eventPasses_def graphEventTypes_def split: if_splits)

text \<open>
  C9. The filtered log is an order-preserving subsequence of the log; with no filter
  selected it is the log itself; with a filter active it is the log filtered by
  \<open>eventPasses\<close>, which keeps no event whose action type is outside the six graph
  event types.
\<close>

theorem filteredLog_subsequence:
  "subseq (filteredLog f log) log \<and>
   (allFiltersEmpty f \<longrightarrow> filteredLog f log = log) \<and>
   (\<not> allFiltersEmpty f \<longrightarrow>
      filteredLog f log = filter (eventPasses f) log \<and>
      (\<forall>e \<in> set log. actionType (action e) \<notin> set graphEventTypes
          \<longrightarrow> \<not> eventPasses f e \<and> e \<notin> set (filteredLog f log)))"
proof (intro conjI impI)
  show "subseq (filteredLog f log) log"
    by (simp add: filteredLog_def)
  show "filteredLog f log = log" if "allFiltersEmpty f"
    using that by (simp add: filteredLog_def noFiltersSelected_iff)
  show "filteredLog f log = filter (eventPasses f) log" if "\<not> allFiltersEmpty f"
    using that by (simp add: filteredLog_def noFiltersSelected_iff)
  show "\<forall>e \<in> set log. actionType (action e) \<notin> set graphEventTypes
          \<longrightarrow> \<not> eventPasses f e \<and> e \<notin> set (filteredLog f log)"
    if "\<not> allFiltersEmpty f"
    using that eventPasses_type [of f]
    by (auto simp: filteredLog_def noFiltersSelected_iff)
qed

definition noFilters :: logFilters where
  "noFilters =
     \<lparr> atomFilter = None, atomFlagsFilter = Some [], atomInstanceFilter = None,
       atomInstanceActiveStateFilter = Some [], atomInstanceKeyHashFilter = None,
       edgeTypeFilter = \<lparr> isExplicit = None, isExternal = None, isStatic = None \<rparr>,
       eventTypeFilter = None \<rparr>"

definition countInstance :: AnyAtomInstanceBase where
  "countInstance =
     \<lparr> activeState = Active, atom = \<lparr> key = ''count'', flags = None \<rparr>, keyHash = ''count'' \<rparr>"

definition sessionInstance :: AnyAtomInstanceBase where
  "sessionInstance =
     \<lparr> activeState = Active, atom = \<lparr> key = ''session'', flags = None \<rparr>,
       keyHash = ''session-[1]'' \<rparr>"

definition sampleLog :: "LogEvent list" where
  "sampleLog =
     [\<lparr> eventId = 1, action = InstanceStateChanged countInstance \<rparr>,
      \<lparr> eventId = 2, action = OtherAction ''wipe'' \<rparr>,
      \<lparr> eventId = 3, action = InstanceStateChanged sessionInstance \<rparr>]"

theorem filteredLog_subsequence_witness:
  "allFiltersEmpty noFilters \<and>
   filteredLog noFilters sampleLog = sampleLog \<and>
   \<not> allFiltersEmpty (noFilters\<lparr> atomFilter := Some [''count''] \<rparr>) \<and>
   \<lparr> eventId = 2, action = OtherAction ''wipe'' \<rparr> \<in> set sampleLog \<and>
   actionType (action \<lparr> eventId = 2, action = OtherAction ''wipe'' \<rparr>) \<notin> set graphEventTypes \<and>
   \<lparr> eventId = 2, action = OtherAction ''wipe'' \<rparr>
     \<notin> set (filteredLog (noFilters\<lparr> atomFilter := Some [''count''] \<rparr>) sampleLog) \<and>
   filteredLog (noFilters\<lparr> atomFilter := Some [''count''] \<rparr>) sampleLog
     = [\<lparr> eventId = 1, action = InstanceStateChanged countInstance \<rparr>]"
proof -
  let ?f = "noFilters\<lparr> atomFilter := Some [''count''] \<rparr>"
  let ?e = "\<lparr> eventId = 2, action = OtherAction ''wipe'' \<rparr>"
  have a: "allFiltersEmpty noFilters"
    by (simp add: allFiltersEmpty_def noFilters_def emptyFilter_def)
  have b: "\<not> allFiltersEmpty ?f"
    by (simp add: allFiltersEmpty_def noFilters_def emptyFilter_def)
  have c: "?e \<in> set sampleLog" "actionType (action ?e) \<notin> set graphEventTypes"
    by (simp_all add: sampleLog_def graphEventTypes_def)
  have d: "filter (eventPasses ?f) sampleLog
      = [\<lparr> eventId = 1, action = InstanceStateChanged countInstance \<rparr>]"
    by (simp add: sampleLog_def eventPasses_def instancePasses_def noFilters_def
        countInstance_def sessionInstance_def)
  show ?thesis
    using filteredLog_subsequence [of noFilters sampleLog] a
      filteredLog_subsequence [of ?f sampleLog] b c d
    by simp
qed

section \<open>Values of the atoms package\<close>

text \<open>
  Keys, params, factories and states are JavaScript values read by their structure: a
  primitive, an array or a plain object (with the identity of the container and its
  elements), a function or an opaque host object (an identity only).
\<close>

datatype jsdata =
    DUndefined
  | DNull
  | DBool bool
  | DNum int
  | DNaN
  | DBigInt int
  | DStr string
  | DSymbol ref
  | DArr ref "jsdata list"
  | DObj ref "(string \<times> jsdata) list"
  | DFun ref
  | DOpaque ref

fun typeofD :: "jsdata \<Rightarrow> string" where
  "typeofD DUndefined = ''undefined''"
| "typeofD DNull = ''object''"
| "typeofD (DBool b) = ''boolean''"
| "typeofD (DNum n) = ''number''"
| "typeofD DNaN = ''number''"
| "typeofD (DBigInt n) = ''bigint''"
| "typeofD (DStr s) = ''string''"
| "typeofD (DSymbol r) = ''symbol''"
| "typeofD (DArr r xs) = ''object''"
| "typeofD (DObj r fs) = ''object''"
| "typeofD (DFun r) = ''function''"
| "typeofD (DOpaque r) = ''object''"

fun truthyD :: "jsdata \<Rightarrow> bool" where
  "truthyD DUndefined = False"
| "truthyD DNull = False"
| "truthyD (DBool b) = b"
| "truthyD (DNum n) = (n \<noteq> 0)"
| "truthyD DNaN = False"
| "truthyD (DBigInt n) = (n \<noteq> 0)"
| "truthyD (DStr s) = (s \<noteq> [])"
| "truthyD v = True"

fun isArrayD :: "jsdata \<Rightarrow> bool" where
  "isArrayD (DArr r xs) = True"
| "isArrayD v = False"

text \<open>\<open>a[0]\<close> and \<open>a.slice(1)\<close> of an array; \<open>a[0]\<close> of the empty array is undefined.\<close>

fun firstElement :: "jsdata list \<Rightarrow> jsdata" where
  "firstElement [] = DUndefined"
| "firstElement (x # xs) = x"

definition slice1 :: "jsdata list \<Rightarrow> jsdata list" where
  "slice1 xs = drop 1 xs"

text \<open>The own properties of an object, and reading one (undefined when absent).\<close>

fun ownProps :: "jsdata \<Rightarrow> (string \<times> jsdata) list" where
  "ownProps (DObj r fs) = fs"
| "ownProps v = []"

definition getProp :: "(string \<times> jsdata) list \<Rightarrow> string \<Rightarrow> jsdata" where
  "getProp fs k = (case map_of fs k of None \<Rightarrow> DUndefined | Some v \<Rightarrow> v)"

section \<open>The useAtom hook\<close>

text \<open>
  \<^verbatim>\<open>
  (paramA, maybeFactory) => {
    const params = (Array.isArray(paramA) ? paramA.slice(1) : undefined) as Params
    const newAtom = useMemo(() => {
      if (!paramA) { throw new TypeError('Zedux - All atoms must have a key') }
      let options
      if (typeof paramA === 'object' && !Array.isArray(paramA)) { options = paramA }
      else { options = { value: maybeFactory,
                         key: Array.isArray(paramA) ? paramA[0] : paramA } }
      const { flags, key, readonly, scope = Scope.App, value } = options
      ...
      const newAtom = { getReactContext, internalId: generateImplementationId(),
                        flags, key, readonly, scope, value }
      createAtom(newAtom, options)
      return newAtom
    }, [])
    return useAtomWithSubscription(newAtom, params)
  }
  \<close>
  The fields of \<open>newAtom\<close> are \<open>atomFlags\<close>, \<open>atomKey\<close>, \<open>readonly\<close>,
  \<open>scope\<close> and \<open>atomValue\<close> below; its \<open>getReactContext\<close> closure creates a
  context on its first call only and is left out.
\<close>

record AtomBaseProperties =
  internalId :: nat
  atomFlags :: jsdata
  atomKey :: jsdata
  readonly :: jsdata
  scope :: jsdata
  atomValue :: jsdata

text \<open>
  The state of one component's call site between renders: the cell of
  \<open>useMemo(..., [])\<close> (empty until the callback has returned once), the counter behind
  \<open>generateImplementationId\<close>, and the atoms built so far.
\<close>

record useAtomCell =
  memo :: "AtomBaseProperties option"
  nextImplementationId :: nat
  createdAtoms :: "AtomBaseProperties list"

definition mountCell :: useAtomCell where
  "mountCell = \<lparr> memo = None, nextImplementationId = 0, createdAtoms = [] \<rparr>"

text \<open>
  \<open>createAtom\<close> (which completes the atom and may throw) and \<open>Scope.App\<close> are
  defined outside the hook's file and are parameters here; the hook ends in the call
  \<open>useAtomWithSubscription(newAtom, params)\<close>, whose two arguments are the result.
\<close>

definition useAtomOptions :: "jsdata \<Rightarrow> jsdata \<Rightarrow> (string \<times> jsdata) list" where
  "useAtomOptions paramA maybeFactory =
     (if typeofD paramA = ''object'' \<and> \<not> isArrayD paramA then ownProps paramA
      else [(''value'', maybeFactory),
            (''key'', case paramA of DArr r xs \<Rightarrow> firstElement xs | v \<Rightarrow> v)])"

definition useAtomParams :: "jsdata \<Rightarrow> jsdata list option" where
  "useAtomParams paramA = (case paramA of DArr r xs \<Rightarrow> Some (slice1 xs) | v \<Rightarrow> None)"

definition useAtom ::
  "(AtomBaseProperties \<Rightarrow> (string \<times> jsdata) list \<Rightarrow> jserror option) \<Rightarrow> jsdata \<Rightarrow>
   useAtomCell \<Rightarrow> jsdata \<Rightarrow> jsdata \<Rightarrow>
   (jserror + AtomBaseProperties \<times> jsdata list option) \<times> useAtomCell" where
  "useAtom createAtom ScopeApp cell paramA maybeFactory =
     (let params = useAtomParams paramA in
      case memo cell of
        Some newAtom \<Rightarrow> (Inr (newAtom, params), cell)
      | None \<Rightarrow>
          if \<not> truthyD paramA
          then (Inl (TypeError ''Zedux - All atoms must have a key''), cell)
          else
            let options = useAtomOptions paramA maybeFactory;
                newAtom =
                  \<lparr> internalId = nextImplementationId cell,
                    atomFlags = getProp options ''flags'',
                    atomKey = getProp options ''key'',
                    readonly = getProp options ''readonly'',
                    scope = (if getProp options ''scope'' = DUndefined then ScopeApp
                             else getProp options ''scope''),
                    atomValue = getProp options ''value'' \<rparr>;
                cell1 = cell\<lparr> nextImplementationId := Suc (nextImplementationId cell),
                              createdAtoms := createdAtoms cell @ [newAtom] \<rparr>
            in case createAtom newAtom options of
                 Some e \<Rightarrow> (Inl e, cell1)
               | None \<Rightarrow> (Inr (newAtom, params), cell1\<lparr> memo := Some newAtom \<rparr>))"

text \<open>A \<open>createAtom\<close> that accepts every atom, and a value for \<open>Scope.App\<close>.\<close>

definition acceptAtom :: "AtomBaseProperties \<Rightarrow> (string \<times> jsdata) list \<Rightarrow> jserror option" where
  "acceptAtom newAtom options = None"

definition ScopeApp :: jsdata where
  "ScopeApp = DStr ''App''"

text \<open>
  C10, as stated, fails on a later render: the check of the key runs inside
  \<open>useMemo(..., [])\<close>, so once the first render has built the atom, a call with no key
  returns the memoised atom and does not throw.
\<close>

theorem useAtom_rerender_counterexample:
  "\<not> truthyD DUndefined \<and>
   fst (useAtom acceptAtom ScopeApp
          (snd (useAtom acceptAtom ScopeApp mountCell (DStr ''count'') (DFun 0)))
          DUndefined (DFun 0))
   = Inr (\<lparr> internalId = 0, atomFlags = DUndefined, atomKey = DStr ''count'',
            readonly = DUndefined, scope = ScopeApp, atomValue = DFun 0 \<rparr>, None)"
  by (simp add: useAtom_def useAtomOptions_def useAtomParams_def getProp_def mountCell_def
      acceptAtom_def ScopeApp_def Let_def)

text \<open>
  C10 (amended). On the render that computes the memo (the cell is empty), a falsy
  first argument makes \<open>useAtom\<close> throw the TypeError before an id is generated or an
  atom is built; on that render an array-form first argument that \<open>createAtom\<close>
  accepts gives an atom whose key is the array's first element, and the atom is kept in
  the cell. On every render an array-form first argument gives as params exactly the
  remaining elements in order. On a later render (the cell is filled) the memoised atom
  is returned without any check of the first argument.
\<close>

theorem useAtom_key_and_params:
  "(memo cell = None \<and> \<not> truthyD paramA \<longrightarrow>
      useAtom createAtom App cell paramA maybeFactory
        = (Inl (TypeError ''Zedux - All atoms must have a key''), cell)) \<and>
   (memo cell = None \<and> paramA = DArr r xs \<and>
    useAtom createAtom App cell paramA maybeFactory = (Inr (newAtom, params), cell') \<longrightarrow>
      atomKey newAtom = firstElement xs \<and> params = Some (drop 1 xs) \<and>
      memo cell' = Some newAtom \<and> createdAtoms cell' = createdAtoms cell @ [newAtom]) \<and>
   (paramA = DArr r xs \<and>
    useAtom createAtom App cell paramA maybeFactory = (Inr (newAtom, params), cell') \<longrightarrow>
      params = Some (drop 1 xs)) \<and>
   (memo cell = Some memoised \<longrightarrow>
      useAtom createAtom App cell paramA maybeFactory
        = (Inr (memoised, useAtomParams paramA), cell))"
proof -
  have a: "useAtom createAtom App cell paramA maybeFactory
        = (Inl (TypeError ''Zedux - All atoms must have a key''), cell)"
    if "memo cell = None \<and> \<not> truthyD paramA"
    using that by (simp add: useAtom_def)
  have b: "atomKey newAtom = firstElement xs \<and> params = Some (drop 1 xs) \<and>
      memo cell' = Some newAtom \<and> createdAtoms cell' = createdAtoms cell @ [newAtom]"
    if "memo cell = None \<and> paramA = DArr r xs \<and>
        useAtom createAtom App cell paramA maybeFactory = (Inr (newAtom, params), cell')"
    using that
    by (auto simp: useAtom_def useAtomOptions_def useAtomParams_def getProp_def slice1_def
        Let_def split: option.splits if_splits)
  have c: "params = Some (drop 1 xs)"
    if "paramA = DArr r xs \<and>
        useAtom createAtom App cell paramA maybeFactory = (Inr (newAtom, params), cell')"
    using that
    by (auto simp: useAtom_def useAtomParams_def slice1_def Let_def
        split: option.splits if_splits)
  have d: "useAtom createAtom App cell paramA maybeFactory
        = (Inr (memoised, useAtomParams paramA), cell)"
    if "memo cell = Some memoised"
    using that by (simp add: useAtom_def)
  show ?thesis
    using a b c d by blast
qed

definition sessionAtom :: AtomBaseProperties where
  "sessionAtom =
     \<lparr> internalId = 0, atomFlags = DUndefined, atomKey = DStr ''session'',
       readonly = DUndefined, scope = ScopeApp, atomValue = DFun 0 \<rparr>"

theorem useAtom_key_and_params_witness:
  "memo mountCell = None \<and> \<not> truthyD (DStr []) \<and>
   useAtom acceptAtom ScopeApp mountCell (DStr []) (DFun 0)
     = (Inl (TypeError ''Zedux - All atoms must have a key''), mountCell) \<and>
   useAtom acceptAtom ScopeApp mountCell (DArr 1 [DStr ''session'', DNum 7, DStr ''eu'']) (DFun 0)
     = (Inr (sessionAtom, Some [DNum 7, DStr ''eu'']),
        \<lparr> memo = Some sessionAtom, nextImplementationId = 1, createdAtoms = [sessionAtom] \<rparr>) \<and>
   atomKey sessionAtom = firstElement [DStr ''session'', DNum 7, DStr ''eu''] \<and>
   memo \<lparr> memo = Some sessionAtom, nextImplementationId = 1, createdAtoms = [sessionAtom] \<rparr>
     = Some sessionAtom \<and>
   useAtom acceptAtom ScopeApp
       \<lparr> memo = Some sessionAtom, nextImplementationId = 1, createdAtoms = [sessionAtom] \<rparr>
       (DArr 2 [DStr ''other'', DNum 8]) (DFun 0)
     = (Inr (sessionAtom, Some [DNum 8]),
        \<lparr> memo = Some sessionAtom, nextImplementationId = 1, createdAtoms = [sessionAtom] \<rparr>)"
proof -
  let ?c = "\<lparr> memo = Some sessionAtom, nextImplementationId = 1, createdAtoms = [sessionAtom] \<rparr>"
  let ?xs = "[DStr ''session'', DNum 7, DStr ''eu'']"
  have run: "useAtom acceptAtom ScopeApp mountCell (DArr 1 ?xs) (DFun 0)
      = (Inr (sessionAtom, Some [DNum 7, DStr ''eu'']), ?c)"
    by (simp add: useAtom_def useAtomOptions_def useAtomParams_def getProp_def mountCell_def
        acceptAtom_def sessionAtom_def slice1_def Let_def)
  have m: "memo mountCell = None" "memo ?c = Some sessionAtom"
    by (simp_all add: mountCell_def)
  show ?thesis
    using useAtom_key_and_params [where cell = mountCell and paramA = "DStr []"
          and createAtom = acceptAtom and App = ScopeApp and maybeFactory = "DFun 0"]
      useAtom_key_and_params [where cell = mountCell and paramA = "DArr 1 ?xs" and r = 1
          and xs = ?xs and createAtom = acceptAtom and App = ScopeApp
          and maybeFactory = "DFun 0" and newAtom = sessionAtom
          and params = "Some [DNum 7, DStr ''eu'']" and cell' = ?c] run m
      useAtom_key_and_params [where cell = ?c and paramA = "DArr 2 [DStr ''other'', DNum 8]"
          and createAtom = acceptAtom and App = ScopeApp and maybeFactory = "DFun 0"
          and memoised = sessionAtom]
    by (simp add: useAtomParams_def slice1_def)
qed

section \<open>Edge flags and atom instances as the hooks see them\<close>

text \<open>
  \<^verbatim>\<open>
  export const Explicit = 1
  export const External = 2
  export const Static = 4
  \<close>
  JavaScript's \<open>|\<close> works on 32-bit integers.
\<close>

type_synonym edgeflags = "32 word"

definition Explicit :: edgeflags where
  "Explicit = 1"

definition External :: edgeflags where
  "External = 2"

definition Static :: edgeflags where
  "Static = 4"

definition hasFlag :: "edgeflags \<Rightarrow> edgeflags \<Rightarrow> bool" where
  "hasFlag fl flag = (fl AND flag \<noteq> 0)"

text \<open>
  Modelled from the spec: the values of \<open>promiseStatus\<close> in the spec's data model
  (idle, loading, success, error); the instance class is not among the sources.
\<close>

datatype PromiseStatus = Idle | Loading | Success | Error

text \<open>
  Modelled from the spec: the variants of the spec's abstract \<open>Node\<close>; the node classes
  are not among the sources.
\<close>

datatype NodeVariant = AtomInstanceNode | ExternalSubscriberNode | SelectorCacheNode

text \<open>
  Modelled from the spec: the declaration of the atom instance class is not among the
  sources. The record has the fields of the spec's \<open>Node\<close> and \<open>AtomInstance\<close>
  (\<open>id\<close> is \<open>nodeId\<close>, \<open>activeState\<close>, which the hooks read as \<open>l\<close>, is
  \<open>lifecycle\<close> and ranges over the enum of the source, the current state of the
  state holder is \<open>stateHolder\<close>, destructors and promises are named by identities),
  the \<open>_isPromiseResolved\<close> flag that \<open>useAtomInstanceDynamic\<close> reads, and
  \<open>serial\<close>, the identity of the object: two records with the same serial are the
  same instance.
\<close>

record Node =
  nodeId :: string
  variant :: NodeVariant
  lifecycle :: ActiveState
  templateKey :: string
  paramsHash :: string
  params :: "jsdata list"
  stateHolder :: jsdata
  exports :: jsdata
  promise :: "ref option"
  promiseStatus :: PromiseStatus
  promiseError :: "ref option"
  isPromiseResolved :: bool
  destructors :: "nat list"
  ttl :: "nat option"
  ttlTimer :: "nat option"
  overrideOf :: "nat option"
  serial :: nat

text \<open>
  Modelled from the spec: the engine's error classes are not among the sources. The
  error kinds are those the spec's error handling design lists; \<open>FactoryThrew\<close>
  carries the identity of what the factory raised.
\<close>

datatype engineError =
    InvalidParams
  | InjectionOutOfScope
  | InstanceDestroyed
  | CyclicDependency
  | FactoryThrew ref
  | ListenerThrew
  | PromiseRejected

text \<open>
  What a hook throws: the value of a field holding a promise or an error, or an error
  of the engine that passes through the hook.
\<close>

datatype thrown = PromiseObject ref | ErrorObject ref | UndefinedValue | EngineError engineError

fun promiseValue :: "ref option \<Rightarrow> thrown" where
  "promiseValue None = UndefinedValue"
| "promiseValue (Some p) = PromiseObject p"

fun errorValue :: "ref option \<Rightarrow> thrown" where
  "errorValue None = UndefinedValue"
| "errorValue (Some e) = ErrorObject e"

subsection \<open>The end of useAtomInstance\<close>

text \<open>
  \<^verbatim>\<open>
  if (suspend !== false) {
    const status = instance._promiseStatus
    if (status === 'loading') {
      throw instance.promise
    } else if (status === 'error') {
      throw instance._promiseError
    }
  }
  return instance
  \<close>
  \<open>suspend\<close> is a boolean or undefined.
\<close>

definition useAtomInstance_suspend :: "bool option \<Rightarrow> Node \<Rightarrow> thrown + Node" where
  "useAtomInstance_suspend suspend instance =
     (if suspend \<noteq> Some False
      then (let status = promiseStatus instance
            in if status = Loading then Inl (promiseValue (promise instance))
               else if status = Error then Inl (errorValue (promiseError instance))
               else Inr instance)
      else Inr instance)"

text \<open>
  \<^verbatim>\<open>External | (subscribe ? 0 : Static)\<close>, the flags of the edge the hook adds;
  \<open>subscribe\<close> is a boolean or undefined.
\<close>

definition useAtomInstance_flags :: "bool option \<Rightarrow> edgeflags" where
  "useAtomInstance_flags subscribe = External OR (if subscribe = Some True then 0 else Static)"

subsection \<open>The suspension of useAtomInstanceDynamic\<close>

text \<open>
  \<^verbatim>\<open>
  if (instance.promise && !instance._isPromiseResolved) {
    throw instance.promise
  }
  \<close>
  The hook takes the atom and its params only: it has no \<open>suspend\<close> option.
\<close>

definition useAtomInstanceDynamic_suspend :: "Node \<Rightarrow> thrown + Node" where
  "useAtomInstanceDynamic_suspend instance =
     (if promise instance \<noteq> None \<and> \<not> isPromiseResolved instance
      then Inl (promiseValue (promise instance))
      else Inr instance)"

definition failedInstance :: Node where
  "failedInstance =
     \<lparr> nodeId = ''remote-[]'', variant = AtomInstanceNode, lifecycle = Active,
       templateKey = ''remote'', paramsHash = ''[]'', params = [],
       stateHolder = DUndefined, exports = DUndefined,
       promise = Some 7, promiseStatus = Error, promiseError = Some 9,
       isPromiseResolved = True, destructors = [], ttl = None, ttlTimer = None,
       overrideOf = None, serial = 0 \<rparr>"

text \<open>
  C3, as stated, fails for \<open>useAtomInstanceDynamic\<close>: for an instance whose promise
  was rejected the hook returns the instance and does not throw its \<open>promiseError\<close>;
  while the promise is unresolved it throws the promise, whatever the status.
\<close>

theorem useAtomInstanceDynamic_error_counterexample:
  "promise failedInstance = Some 7 \<and> promiseStatus failedInstance = Error \<and>
   promiseError failedInstance = Some 9 \<and>
   useAtomInstanceDynamic_suspend failedInstance = Inr failedInstance \<and>
   useAtomInstanceDynamic_suspend (failedInstance\<lparr> isPromiseResolved := False \<rparr>)
     = Inl (PromiseObject 7)"
  by (simp add: useAtomInstanceDynamic_suspend_def failedInstance_def)

text \<open>
  C3 (amended). For an instance whose promise is attached, \<open>useAtomInstance\<close> with
  \<open>suspend\<close> not \<open>false\<close> throws the instance's promise unchanged when
  \<open>promiseStatus\<close> is loading and the instance's \<open>promiseError\<close> when it is error,
  and with \<open>suspend\<close> \<open>false\<close> it returns the instance in either case.
  \<open>useAtomInstanceDynamic\<close>, which has no \<open>suspend\<close> option, throws the promise
  unchanged while the promise is not resolved and returns the instance otherwise; it
  never throws a \<open>promiseError\<close>.
\<close>

theorem hooks_suspend:
  "(promise inst = Some p \<and> suspend \<noteq> Some False \<and> promiseStatus inst = Loading
      \<longrightarrow> useAtomInstance_suspend suspend inst = Inl (PromiseObject p)) \<and>
   (promise inst = Some p \<and> suspend \<noteq> Some False \<and> promiseStatus inst = Error
      \<longrightarrow> useAtomInstance_suspend suspend inst = Inl (errorValue (promiseError inst))) \<and>
   (promise inst = Some p \<longrightarrow> useAtomInstance_suspend (Some False) inst = Inr inst) \<and>
   (promise inst = Some p \<and> \<not> isPromiseResolved inst
      \<longrightarrow> useAtomInstanceDynamic_suspend inst = Inl (PromiseObject p)) \<and>
   (promise inst = Some p \<and> isPromiseResolved inst
      \<longrightarrow> useAtomInstanceDynamic_suspend inst = Inr inst) \<and>
   useAtomInstanceDynamic_suspend inst \<noteq> Inl (ErrorObject e)"
proof -
  have "useAtomInstanceDynamic_suspend inst \<noteq> Inl (ErrorObject e)"
    by (cases "promise inst") (simp_all add: useAtomInstanceDynamic_suspend_def)
  then show ?thesis
    by (simp add: useAtomInstance_suspend_def useAtomInstanceDynamic_suspend_def)
qed

theorem hooks_suspend_witness:
  "promise (failedInstance\<lparr> promiseStatus := Loading, isPromiseResolved := False \<rparr>) = Some 7 \<and>
   promiseStatus (failedInstance\<lparr> promiseStatus := Loading, isPromiseResolved := False \<rparr>)
     = Loading \<and>
   useAtomInstance_suspend None
       (failedInstance\<lparr> promiseStatus := Loading, isPromiseResolved := False \<rparr>)
     = Inl (PromiseObject 7) \<and>
   useAtomInstanceDynamic_suspend
       (failedInstance\<lparr> promiseStatus := Loading, isPromiseResolved := False \<rparr>)
     = Inl (PromiseObject 7) \<and>
   useAtomInstance_suspend (Some False)
       (failedInstance\<lparr> promiseStatus := Loading, isPromiseResolved := False \<rparr>)
     = Inr (failedInstance\<lparr> promiseStatus := Loading, isPromiseResolved := False \<rparr>) \<and>
   promise failedInstance = Some 7 \<and> promiseStatus failedInstance = Error \<and>
   isPromiseResolved failedInstance \<and>
   useAtomInstance_suspend (Some True) failedInstance = Inl (ErrorObject 9) \<and>
   useAtomInstanceDynamic_suspend failedInstance = Inr failedInstance"
proof -
  let ?l = "failedInstance\<lparr> promiseStatus := Loading, isPromiseResolved := False \<rparr>"
  have l: "promise ?l = Some 7" "promiseStatus ?l = Loading" "\<not> isPromiseResolved ?l"
    by (simp_all add: failedInstance_def)
  have f: "promise failedInstance = Some 7" "promiseStatus failedInstance = Error"
      "isPromiseResolved failedInstance" "promiseError failedInstance = Some 9"
    by (simp_all add: failedInstance_def)
  show ?thesis
    using hooks_suspend [where inst = "?l" and p = 7 and suspend = None] l
      hooks_suspend [where inst = failedInstance and p = 7 and suspend = "Some True"] f
    by simp
qed

section \<open>The engine: parameter hashing and templates\<close>



text \<open>
  Decimal numerals, for the serialisation of numbers and identities in a hash.
\<close>

definition digits :: string where
  "digits = ''0123456789''"

fun showNat :: "nat \<Rightarrow> string" where
  "showNat n = (if n < 10 then [digits ! n] else showNat (n div 10) @ [digits ! (n mod 10)])"

definition showInt :: "int \<Rightarrow> string" where
  "showInt i = (if i < 0 then ''-'' @ showNat (nat (- i)) else showNat (nat i))"

text \<open>
  Modelled from the spec: the hash function is not among the sources. It is the deep
  structural hash of the spec: a serialisation that descends into arrays and plain
  objects and leaves out their identities, and names a function or an opaque object
  by its identity.
\<close>

fun hashValue :: "jsdata \<Rightarrow> string" where
  "hashValue DUndefined = ''undefined''"
| "hashValue DNull = ''null''"
| "hashValue (DBool b) = (if b then ''true'' else ''false'')"
| "hashValue (DNum n) = showInt n"
| "hashValue DNaN = ''NaN''"
| "hashValue (DBigInt n) = showInt n @ ''n''"
| "hashValue (DStr s) = CHR 0x22 # s @ [CHR 0x22]"
| "hashValue (DSymbol r) = ''symbol#'' @ showNat r"
| "hashValue (DArr r xs) = ''['' @ concat (map (\<lambda>x. hashValue x @ '','') xs) @ '']''"
| "hashValue (DObj r fs) =
     ''{'' @ concat (map (\<lambda>(k, v). CHR 0x22 # k @ [CHR 0x22] @ '':'' @ hashValue v @ '','') fs)
       @ ''}''"
| "hashValue (DFun r) = ''function#'' @ showNat r"
| "hashValue (DOpaque r) = ''object#'' @ showNat r"

text \<open>
  Modelled from the spec: \<open>paramsHash\<close> and the instance id
  \<open>${templateKey}-${paramsHash}\<close>, computed by Ecosystem code that is not among the
  sources.
\<close>

definition hashParams :: "jsdata list \<Rightarrow> string" where
  "hashParams ps = hashValue (DArr 0 ps)"

text \<open>
  Modelled from the spec: the instance id \<open>${templateKey}-${paramsHash}\<close> of section 4.3,
  allocated by Ecosystem code that is not among the sources.
\<close>

definition instanceId :: "string \<Rightarrow> jsdata list \<Rightarrow> string" where
  "instanceId k ps = k @ ''-'' @ hashParams ps"

text \<open>
  Modelled from the spec: the template class and the factory protocol are not among
  the sources. A factory returns a value, a state holder (named by its state) or the
  atom API envelope \<open>{ value, exports?, promise?, ttl? }\<close>, and registers destructors
  while it runs, or it throws. A template is its key, its identity, its factory, its
  \<open>ttl\<close> and whether its parameter signature requires params. Reads of other atoms
  by a factory enter the graph through \<open>addEdge\<close>.
\<close>

datatype factoryReturn =
    ReturnedValue jsdata
  | ReturnedStateHolder jsdata
  | ReturnedEnvelope jsdata "jsdata option" "ref option" "nat option"

text \<open>
  Modelled from the spec: a factory run either throws (\<open>FactoryThrew\<close>) or returns, with the
  destructors it registered; the injection API is not among the sources.
\<close>

datatype factoryOutcome = Threw ref | Returned factoryReturn "nat list"

text \<open>
  Modelled from the spec: the template descriptor of section 6 (key, factory, ttl), the identity
  of the template and whether its parameter signature requires params; the template class is
  not among the sources.
\<close>

record AtomTemplate =
  template_key :: string
  template_id :: nat
  factory :: "jsdata list \<Rightarrow> factoryOutcome"
  template_ttl :: "nat option"
  requiresParams :: bool

section \<open>The engine: graph and ecosystem\<close>

text \<open>
  Modelled from the spec: the Graph's edge class is not among the sources. An edge
  runs from the dependent \<open>fromId\<close> to the dependency \<open>toId\<close>; \<open>notify\<close> is the
  identity of the callback, or null.
\<close>

record Edge =
  fromId :: string
  toId :: string
  edgeFlags :: edgeflags
  operation :: string
  notify :: "ref option"

text \<open>
  Modelled from the spec: the reasons of \<open>scheduleNotify\<close> and a delivered
  notification (to the dependent \<open>recipient\<close>, about the dependency \<open>about\<close>, with
  the new state when the reason is \<open>stateChanged\<close>); the scheduler is not among the
  sources.
\<close>

datatype reason = stateChanged | destroyed | edgeAdded

text \<open>
  Modelled from the spec: one delivered notification; the scheduler is not among the sources.
\<close>

record Delivery =
  recipient :: string
  about :: string
  why :: reason
  callback :: "ref option"
  payload :: "jsdata option"

text \<open>
  Modelled from the spec: the Ecosystem class is not among the sources. It owns the
  registry \<open>n\<close> of live nodes (\<open>registry\<close>, in order of registration), the edges of
  the graph (in order of creation; a node's dependents and dependencies are the edges
  that end and start at it), the override table, a clock for ttl timers, the
  notifications delivered so far, the instances destroyed so far and the destructors
  run so far. \<open>nextSerial\<close> numbers the instance objects it constructs.
\<close>

record Ecosystem =
  registry :: "(string \<times> Node) list"
  edges :: "Edge list"
  overridesById :: "(string \<times> AtomTemplate) list"
  clock :: nat
  nextSerial :: nat
  delivered :: "Delivery list"
  destroyedNodes :: "Node list"
  destructorLog :: "(string \<times> nat) list"

text \<open>
  Modelled from the spec: an Ecosystem as its constructor, which is not among the sources,
  leaves it: no node, no edge, no override.
\<close>

definition emptyEcosystem :: Ecosystem where
  "emptyEcosystem =
     \<lparr> registry = [], edges = [], overridesById = [], clock = 0, nextSerial = 0,
       delivered = [], destroyedNodes = [], destructorLog = [] \<rparr>"

text \<open>Modelled from the spec: \<open>getNodeById(id)\<close> of the Ecosystem, not among the sources.\<close>

definition getNodeById :: "Ecosystem \<Rightarrow> string \<Rightarrow> Node option" where
  "getNodeById eco i = map_of (registry eco) i"

text \<open>
  Modelled from the spec: the dependents of a node (the edges that end at it), its
  dependencies (the edges that start at it) and the edges between two nodes; the
  Graph is not among the sources.
\<close>

definition dependentEdges :: "Ecosystem \<Rightarrow> string \<Rightarrow> Edge list" where
  "dependentEdges eco i = filter (\<lambda>e. toId e = i) (edges eco)"

text \<open>
  Modelled from the spec: a node's dependencies, the edges that start at it; the Graph is
  not among the sources.
\<close>

definition dependencyEdges :: "Ecosystem \<Rightarrow> string \<Rightarrow> Edge list" where
  "dependencyEdges eco i = filter (\<lambda>e. fromId e = i) (edges eco)"

text \<open>
  Modelled from the spec: the edges stored for a pair of endpoints; the Graph is not among
  the sources.
\<close>

definition edgesBetween :: "Ecosystem \<Rightarrow> string \<Rightarrow> string \<Rightarrow> Edge list" where
  "edgesBetween eco f t = filter (\<lambda>e. fromId e = f \<and> toId e = t) (edges eco)"

text \<open>
  Modelled from the spec: the weight of a node, 1 + the sum of the weights of its
  dependencies that are atom instances (invariant 5), computed to the depth of the
  registry's size; the Graph is not among the sources.
\<close>

definition isAtomInstance :: "Ecosystem \<Rightarrow> string \<Rightarrow> bool" where
  "isAtomInstance eco i =
     (case getNodeById eco i of None \<Rightarrow> False | Some nd \<Rightarrow> variant nd = AtomInstanceNode)"

text \<open>
  Modelled from the spec: invariant 5, the weight of a node unfolded to a given depth; the Graph
  is not among the sources.
\<close>

primrec weightTo :: "nat \<Rightarrow> Ecosystem \<Rightarrow> string \<Rightarrow> nat" where
  "weightTo 0 eco i = 1"
| "weightTo (Suc k) eco i =
     1 + sum_list (map (\<lambda>e. weightTo k eco (toId e))
                       (filter (\<lambda>e. isAtomInstance eco (toId e)) (dependencyEdges eco i)))"

text \<open>
  Modelled from the spec: invariant 5, the weight of a node; the Graph is not among the
  sources.
\<close>

definition weight :: "Ecosystem \<Rightarrow> string \<Rightarrow> nat" where
  "weight eco i = weightTo (length (registry eco)) eco i"

text \<open>
  Modelled from the spec: cancelling and starting the ttl timer of a node (invariant
  6: a node that has lost its last dependent and has a finite ttl is scheduled for
  destruction at \<open>now + ttl\<close>; re-acquiring a dependent cancels it); the destruction
  scheduler is not among the sources.
\<close>

definition cancelTimer :: "Ecosystem \<Rightarrow> string \<Rightarrow> Ecosystem" where
  "cancelTimer eco i =
     (case getNodeById eco i of
        None \<Rightarrow> eco
      | Some nd \<Rightarrow> eco\<lparr> registry := AList.update i (nd\<lparr> ttlTimer := None \<rparr>) (registry eco) \<rparr>)"

text \<open>
  Modelled from the spec: invariant 6, the start of the ttl timer of a node that has a
  finite ttl; the destruction scheduler is not among the sources.
\<close>

definition markEligible :: "Ecosystem \<Rightarrow> string \<Rightarrow> Ecosystem" where
  "markEligible eco i =
     (case getNodeById eco i of
        None \<Rightarrow> eco
      | Some nd \<Rightarrow>
          (case ttl nd of
             None \<Rightarrow> eco
           | Some d \<Rightarrow>
               eco\<lparr> registry :=
                      AList.update i (nd\<lparr> ttlTimer := Some (clock eco + d) \<rparr>) (registry eco) \<rparr>))"

text \<open>
  Modelled from the spec: \<open>addEdge(fromId, toId, flags, notify, operation)\<close> of the
  Graph, not among the sources. An existing edge has its flags OR-merged and keeps its
  callback; a new edge is stored only between registered nodes (invariant 2) and
  cancels the scheduled destruction of the dependency.
\<close>

definition addEdge ::
  "Ecosystem \<Rightarrow> string \<Rightarrow> string \<Rightarrow> edgeflags \<Rightarrow> ref option \<Rightarrow> string \<Rightarrow> Ecosystem" where
  "addEdge eco f t fl cb op =
     (if edgesBetween eco f t \<noteq> []
      then eco\<lparr> edges := map (\<lambda>e. if fromId e = f \<and> toId e = t
                                    then e\<lparr> edgeFlags := edgeFlags e OR fl \<rparr> else e)
                              (edges eco) \<rparr>
      else if getNodeById eco f = None \<or> getNodeById eco t = None then eco
      else cancelTimer
             (eco\<lparr> edges := edges eco @
                     [\<lparr> fromId = f, toId = t, edgeFlags = fl, operation = op, notify = cb \<rparr>] \<rparr>)
             t)"

text \<open>
  Modelled from the spec: \<open>scheduleNotify(fromId, reason)\<close> of the Graph, not among
  the sources: the edges over which a notification about node \<open>i\<close> is delivered, in
  the order of delivery. A \<open>Static\<close> edge takes no \<open>stateChanged\<close>; atoms come by
  ascending weight, \<open>External\<close> edges last. Every scheduled notification is
  delivered before control returns.
\<close>

definition notifiedEdges :: "Ecosystem \<Rightarrow> string \<Rightarrow> reason \<Rightarrow> Edge list" where
  "notifiedEdges eco i r =
     (let wanted = filter (\<lambda>e. r \<noteq> stateChanged \<or> \<not> hasFlag (edgeFlags e) Static)
                          (dependentEdges eco i)
      in sort_key (\<lambda>e. weight eco (fromId e))
           (filter (\<lambda>e. \<not> hasFlag (edgeFlags e) External) wanted)
         @ filter (\<lambda>e. hasFlag (edgeFlags e) External) wanted)"

text \<open>
  Modelled from the spec: the notification delivered over one edge; the scheduler is not
  among the sources.
\<close>

definition deliveryOver :: "reason \<Rightarrow> jsdata option \<Rightarrow> Edge \<Rightarrow> Delivery" where
  "deliveryOver r v e =
     \<lparr> recipient = fromId e, about = toId e, why = r, callback = notify e, payload = v \<rparr>"

text \<open>
  Modelled from the spec: \<open>scheduleNotify\<close> of the Graph, not among the sources; the
  notifications are delivered in the order of \<open>notifiedEdges\<close>.
\<close>

definition scheduleNotify :: "Ecosystem \<Rightarrow> string \<Rightarrow> reason \<Rightarrow> jsdata option \<Rightarrow> Ecosystem" where
  "scheduleNotify eco i r v =
     eco\<lparr> delivered := delivered eco @ map (deliveryOver r v) (notifiedEdges eco i r) \<rparr>"

text \<open>
  Modelled from the spec: \<open>setState\<close> on the state holder of an instance, not among
  the sources: the state is committed, then the dependents are notified; a destroyed
  instance (one that is no longer registered) refuses it.
\<close>

definition setState :: "Ecosystem \<Rightarrow> string \<Rightarrow> jsdata \<Rightarrow> engineError + Ecosystem" where
  "setState eco i v =
     (case getNodeById eco i of
        None \<Rightarrow> Inl InstanceDestroyed
      | Some nd \<Rightarrow>
          Inr (scheduleNotify
                 (eco\<lparr> registry := AList.update i (nd\<lparr> stateHolder := v \<rparr>) (registry eco) \<rparr>)
                 i stateChanged (Some v)))"

text \<open>
  Modelled from the spec: the destruction of an instance (section 4.3), not among the
  sources: the instance becomes \<open>Destroyed\<close>, its destructors run in reverse order of
  registration, its dependents are sent \<open>destroyed\<close>, all its edges on both sides are
  removed and it leaves the registry, in one step. A dependency that loses its last
  dependent this way has its ttl timer started.
\<close>

definition releaseDependency :: "string \<Rightarrow> Ecosystem \<Rightarrow> Ecosystem" where
  "releaseDependency d eco = (if dependentEdges eco d = [] then markEligible eco d else eco)"

text \<open>
  Modelled from the spec: the four steps of the destruction of an instance (section 4.3); the
  instance class is not among the sources.
\<close>

definition destroyNode :: "Ecosystem \<Rightarrow> string \<Rightarrow> Ecosystem" where
  "destroyNode eco i =
     (case getNodeById eco i of
        None \<Rightarrow> eco
      | Some nd \<Rightarrow>
          let eco1 = eco\<lparr> destructorLog := destructorLog eco @ map (Pair i) (rev (destructors nd)) \<rparr>;
              eco2 = scheduleNotify eco1 i destroyed None;
              eco3 = eco2\<lparr> edges := filter (\<lambda>e. toId e \<noteq> i \<and> fromId e \<noteq> i) (edges eco2),
                           registry := AList.delete i (registry eco2),
                           destroyedNodes := destroyedNodes eco2 @
                             [nd\<lparr> lifecycle := Destroyed, ttlTimer := None \<rparr>] \<rparr>
          in fold releaseDependency (map toId (dependencyEdges eco i)) eco3)"

text \<open>
  Modelled from the spec: \<open>removeEdge(fromId, toId)\<close> of the Graph, not among the
  sources. When the edge was the last dependent of \<open>toId\<close>, a \<open>toId\<close> with ttl 0 is
  destroyed at once and any other \<open>toId\<close> becomes eligible for ttl-based
  destruction (its timer is started).
\<close>

definition removeEdge :: "Ecosystem \<Rightarrow> string \<Rightarrow> string \<Rightarrow> Ecosystem" where
  "removeEdge eco f t =
     (if edgesBetween eco f t = [] then eco
      else
        let eco1 = eco\<lparr> edges := filter (\<lambda>e. \<not> (fromId e = f \<and> toId e = t)) (edges eco) \<rparr>
        in if dependentEdges eco1 t \<noteq> [] then eco1
           else (case getNodeById eco1 t of
                   None \<Rightarrow> eco1
                 | Some nd \<Rightarrow> if ttl nd = Some 0 then destroyNode eco1 t else markEligible eco1 t))"

text \<open>
  Modelled from the spec: the expiry of ttl timers, run by a destruction scheduler
  that is not among the sources: when the clock reaches \<open>now\<close>, every registered node
  whose timer is due is destroyed.
\<close>

definition timerDue :: "nat \<Rightarrow> Node \<Rightarrow> bool" where
  "timerDue now nd = (case ttlTimer nd of None \<Rightarrow> False | Some due \<Rightarrow> due \<le> now)"

text \<open>
  Modelled from the spec: ttl expiry, by a destruction scheduler that is not among the
  sources.
\<close>

definition advanceClock :: "Ecosystem \<Rightarrow> nat \<Rightarrow> Ecosystem" where
  "advanceClock eco now =
     fold (\<lambda>i e. destroyNode e i)
          (map fst (filter (\<lambda>entry. timerDue now (snd entry)) (registry eco)))
          (eco\<lparr> clock := max (clock eco) now \<rparr>)"

section \<open>The engine: resolving, creating and overriding instances\<close>

text \<open>
  Modelled from the spec: the override table lookup of the Ecosystem, not among the
  sources: the effective template of a template is the replacement stored under its
  key, if any.
\<close>

definition resolveTemplate :: "Ecosystem \<Rightarrow> AtomTemplate \<Rightarrow> AtomTemplate" where
  "resolveTemplate eco T =
     (case map_of (overridesById eco) (template_key T) of None \<Rightarrow> T | Some T' \<Rightarrow> T')"

text \<open>
  Modelled from the spec: steps 5 and 6 of the construction of an instance (section
  4.3), not among the sources: what the factory returned becomes the state of the
  state holder, an envelope is unpacked, and the instance becomes \<open>Active\<close>; a
  promise that was registered is pending, \<open>promiseStatus\<close> is loading. (The enum of
  the source has no \<open>Stale\<close> member.)
\<close>

fun adopt :: "Node \<Rightarrow> factoryReturn \<Rightarrow> Node" where
  "adopt nd (ReturnedValue v) = nd\<lparr> stateHolder := v \<rparr>"
| "adopt nd (ReturnedStateHolder v) = nd\<lparr> stateHolder := v \<rparr>"
| "adopt nd (ReturnedEnvelope v ex pr tt) =
     nd\<lparr> stateHolder := v,
         exports := (case ex of None \<Rightarrow> DUndefined | Some x \<Rightarrow> x),
         promise := pr,
         promiseStatus := (if pr = None then Idle else Loading),
         ttl := (case tt of None \<Rightarrow> ttl nd | Some d \<Rightarrow> Some d) \<rparr>"

text \<open>
  Modelled from the spec: step 6 of the construction: the instance becomes \<open>Active\<close> with the
  destructors the factory registered; the instance class is not among the sources.
\<close>

definition activate :: "Node \<Rightarrow> factoryReturn \<Rightarrow> nat list \<Rightarrow> Node" where
  "activate nd ret ds = (adopt nd ret)\<lparr> lifecycle := Active, destructors := ds \<rparr>"

text \<open>
  Modelled from the spec: \<open>create(template, params)\<close> (section 4.3), not among the
  sources: the effective template is resolved through the override table, the node is
  registered as \<open>Initializing\<close> under its id, the factory runs, and the instance is
  activated. A factory that throws leaves no instance behind and its error is rethrown
  to the caller of \<open>getNode\<close>.
\<close>

definition initializingNode :: "Ecosystem \<Rightarrow> AtomTemplate \<Rightarrow> jsdata list \<Rightarrow> Node" where
  "initializingNode eco T ps =
     \<lparr> nodeId = instanceId (template_key T) ps, variant = AtomInstanceNode,
       lifecycle = Initializing, templateKey = template_key T, paramsHash = hashParams ps,
       params = ps, stateHolder = DUndefined, exports = DUndefined, promise = None,
       promiseStatus = Idle, promiseError = None, isPromiseResolved = False,
       destructors = [], ttl = template_ttl (resolveTemplate eco T), ttlTimer = None,
       overrideOf = (if template_id (resolveTemplate eco T) = template_id T then None
                     else Some (template_id T)),
       serial = nextSerial eco \<rparr>"

text \<open>
  Modelled from the spec: \<open>create(template, params)\<close> of section 4.3; the instance class
  is not among the sources.
\<close>

definition createInstance ::
  "Ecosystem \<Rightarrow> AtomTemplate \<Rightarrow> jsdata list \<Rightarrow> engineError + Node \<times> Ecosystem" where
  "createInstance eco T ps =
     (let fresh = initializingNode eco T ps;
          eco1 = eco\<lparr> registry := AList.update (nodeId fresh) fresh (registry eco),
                      nextSerial := Suc (nextSerial eco) \<rparr>
      in case factory (resolveTemplate eco T) ps of
           Threw err \<Rightarrow> Inl (FactoryThrew err)
         | Returned ret ds \<Rightarrow>
             let inst = activate fresh ret ds
             in Inr (inst, eco1\<lparr> registry := AList.update (nodeId fresh) inst (registry eco1) \<rparr>))"

text \<open>
  Modelled from the spec: \<open>getNode(template, params?)\<close> of the Ecosystem, not among
  the sources: it raises \<open>InvalidParams\<close> when the template requires params and none
  were supplied, returns the instance registered under the id of the template's key
  and the hash of the params, or creates it.
\<close>

definition getNode ::
  "Ecosystem \<Rightarrow> AtomTemplate \<Rightarrow> jsdata list option \<Rightarrow> engineError + Node \<times> Ecosystem" where
  "getNode eco T ps =
     (if requiresParams T \<and> ps = None then Inl InvalidParams
      else
        let given = (case ps of None \<Rightarrow> [] | Some xs \<Rightarrow> xs)
        in case getNodeById eco (instanceId (template_key T) given) of
             Some nd \<Rightarrow> Inr (nd, eco)
           | None \<Rightarrow> createInstance eco T given)"

text \<open>
  Modelled from the spec: \<open>overrides(list)\<close> of the Ecosystem (section 4.6), not
  among the sources: the new table holds each replacement under its own key; the keys
  whose entry differs (by the identity of the template) between the old and the new
  table are changed; the live instances of a changed key are marked, the new table is
  committed, and the marked instances are destroyed.
\<close>

definition overrideTable :: "AtomTemplate list \<Rightarrow> (string \<times> AtomTemplate) list" where
  "overrideTable ts = map (\<lambda>T. (template_key T, T)) ts"

text \<open>
  Modelled from the spec: step 1 of \<open>overrides\<close> (section 4.6), the diff of two override
  tables at a key; the Ecosystem is not among the sources.
\<close>

definition keyChanged ::
  "(string \<times> AtomTemplate) list \<Rightarrow> (string \<times> AtomTemplate) list \<Rightarrow> string \<Rightarrow> bool" where
  "keyChanged old new k =
     (map_option template_id (map_of old k) \<noteq> map_option template_id (map_of new k))"

text \<open>
  Modelled from the spec: step 2 of \<open>overrides\<close> (section 4.6), the live instances of
  the changed keys; the Ecosystem is not among the sources.
\<close>

definition markedInstances :: "Ecosystem \<Rightarrow> (string \<times> AtomTemplate) list \<Rightarrow> string list" where
  "markedInstances eco new =
     map fst (filter (\<lambda>entry. variant (snd entry) = AtomInstanceNode \<and>
                              keyChanged (overridesById eco) new (templateKey (snd entry)))
                     (registry eco))"

text \<open>
  Modelled from the spec: \<open>overrides(list)\<close> of the Ecosystem (section 4.6), not among the
  sources.
\<close>

definition overrides :: "Ecosystem \<Rightarrow> AtomTemplate list \<Rightarrow> Ecosystem" where
  "overrides eco ts =
     (let new = overrideTable ts;
          marked = markedInstances eco new
      in fold (\<lambda>i e. destroyNode e i) marked (eco\<lparr> overridesById := new \<rparr>))"

section \<open>The hooks on the engine\<close>

text \<open>
  \<^verbatim>\<open>
  { operation = OPERATION, subscribe, suspend }: ZeduxHookConfig = { operation: OPERATION }
  \<close>
\<close>

record ZeduxHookConfig =
  hookOperation :: "string option"
  subscribe :: "bool option"
  suspend :: "bool option"

definition OPERATION :: string where
  "OPERATION = ''useAtomInstance''"

text \<open>
  Modelled from the spec: the \<open>ExternalNode\<close> class is not among the sources. The
  node of a component is registered under the component's id as an external
  subscriber; \<open>new ExternalNode(ecosystem, observerId, render)\<close> registers it when the
  registry has none (a destroyed node is not in the registry).
\<close>

definition externalNode :: "Ecosystem \<Rightarrow> string \<Rightarrow> Node" where
  "externalNode eco observerId =
     \<lparr> nodeId = observerId, variant = ExternalSubscriberNode, lifecycle = Active,
       templateKey = [], paramsHash = [], params = [], stateHolder = DUndefined,
       exports = DUndefined, promise = None, promiseStatus = Idle, promiseError = None,
       isPromiseResolved = False, destructors = [], ttl = None, ttlTimer = None,
       overrideOf = None, serial = nextSerial eco \<rparr>"

text \<open>
  Modelled from the spec: the lookup \<open>ecosystem.n.get(observerId)\<close> and the
  registration of a new \<open>ExternalNode\<close>, a class that is not among the sources.
\<close>

definition ensureExternalNode :: "Ecosystem \<Rightarrow> string \<Rightarrow> Ecosystem" where
  "ensureExternalNode eco observerId =
     (case getNodeById eco observerId of
        Some nd \<Rightarrow> eco
      | None \<Rightarrow> eco\<lparr> registry := AList.update observerId (externalNode eco observerId) (registry eco),
                     nextSerial := Suc (nextSerial eco) \<rparr>)"

text \<open>
  The render phase of \<open>useAtomInstance\<close>:
  \<^verbatim>\<open>
  const instance: AtomInstance = ecosystem.getNode(atom, params)
  let node = (ecosystem.n.get(observerId) as ExternalNode) ??
             new ExternalNode(ecosystem, observerId, render)
  const addEdge = () => {
    node.l === 'Destroyed' && (node = new ExternalNode(ecosystem, observerId, render))
    node.i === instance ||
      node.u(instance, operation, External | (subscribe ? 0 : Static))
  }
  addEdge()
  ... the suspension check ...
  return instance
  \<close>
  \<open>node.i === instance\<close> holds when the node already observes the instance, that is
  when the edge exists; \<open>node.u\<close> adds the edge with \<open>render\<close> as its callback. The
  edge stays when the hook throws.
\<close>

definition useAtomInstance ::
  "Ecosystem \<Rightarrow> string \<Rightarrow> ref \<Rightarrow> AtomTemplate \<Rightarrow> jsdata list option \<Rightarrow> ZeduxHookConfig \<Rightarrow>
   (thrown + Node) \<times> Ecosystem" where
  "useAtomInstance eco observerId render template ps config =
     (case getNode eco template ps of
        Inl err \<Rightarrow> (Inl (EngineError err), eco)
      | Inr (inst, eco1) \<Rightarrow>
          let eco2 = ensureExternalNode eco1 observerId;
              eco3 = (if edgesBetween eco2 observerId (nodeId inst) \<noteq> [] then eco2
                      else addEdge eco2 observerId (nodeId inst)
                             (useAtomInstance_flags (subscribe config)) (Some render)
                             (case hookOperation config of None \<Rightarrow> OPERATION | Some op \<Rightarrow> op))
          in (useAtomInstance_suspend (suspend config) inst, eco3))"

text \<open>
  The cleanup of the hook's effect, \<^verbatim>\<open>node.k(instance)\<close>: the edge is removed at
  once.
\<close>

definition useAtomInstance_cleanup :: "Ecosystem \<Rightarrow> string \<Rightarrow> Node \<Rightarrow> Ecosystem" where
  "useAtomInstance_cleanup eco observerId inst = removeEdge eco observerId (nodeId inst)"

text \<open>
  The state of a component that calls \<open>useAtomInstanceDynamic\<close>: the two cells of
  \<open>useState\<close>. \<open>forceRender({})\<close> stores a new object, here the next number.
\<close>

record dynamicHookState =
  reactState :: "jsdata option"
  force :: nat



section \<open>Properties of the engine\<close>

subsection \<open>Resolution is unique\<close>






text \<open>
  The counter of scenario 1: a template whose factory returns 0, with ttl 0.
\<close>

definition countTemplate :: AtomTemplate where
  "countTemplate =
     \<lparr> template_key = ''count'', template_id = 1,
       factory = (\<lambda>ps. Returned (ReturnedValue (DNum 0)) []),
       template_ttl = Some 0, requiresParams = False \<rparr>"


subsection \<open>Edges\<close>

text \<open>
  Modelled from the spec: the Graph keeps at most one edge for a pair of endpoints (its
  edge maps are keyed by node id); the Graph is not among the sources.
\<close>

definition oneEdgePerPair :: "Ecosystem \<Rightarrow> bool" where
  "oneEdgePerPair eco = distinct (map (\<lambda>e. (fromId e, toId e)) (edges eco))"

lemma filter_key_single:
  "distinct (map k xs) \<Longrightarrow> e \<in> set xs \<Longrightarrow> filter (\<lambda>x. k x = k e) xs = [e]"
proof (induction xs)
  case Nil
  then show ?case by simp
next
  case (Cons x xs)
  show ?case
  proof (cases "x = e")
    case True
    have "k e \<notin> k ` set xs"
      using Cons.prems(1) True by simp
    then have "filter (\<lambda>y. k y = k e) xs = []"
      unfolding filter_empty_conv by (metis imageI)
    then show ?thesis using True by simp
  next
    case False
    then have "e \<in> set xs" using Cons.prems(2) by simp
    moreover have "k x \<noteq> k e"
      using Cons.prems(1) \<open>e \<in> set xs\<close> by auto
    ultimately show ?thesis using Cons by simp
  qed
qed

lemma edgesBetween_single:
  assumes "oneEdgePerPair eco" "e \<in> set (edges eco)"
  shows "edgesBetween eco (fromId e) (toId e) = [e]"
proof -
  have "filter (\<lambda>x. (fromId x, toId x) = (fromId e, toId e)) (edges eco) = [e]"
    using assms unfolding oneEdgePerPair_def
    by (rule filter_key_single [where k = "\<lambda>e. (fromId e, toId e)"])
  then show ?thesis by (simp add: edgesBetween_def)
qed

lemma addEdge_existing_edges:
  assumes "edgesBetween eco f t \<noteq> []"
  shows "addEdge eco f t fl cb op =
     eco\<lparr> edges := map (\<lambda>e. if fromId e = f \<and> toId e = t
                                then e\<lparr> edgeFlags := edgeFlags e OR fl \<rparr> else e) (edges eco) \<rparr>"
  using assms by (simp add: addEdge_def)

lemma endpoints_merge:
  "(\<lambda>e. (fromId e, toId e)) \<circ>
     (\<lambda>e. if fromId e = f \<and> toId e = t then e\<lparr> edgeFlags := edgeFlags e OR fl \<rparr> else e)
   = (\<lambda>e. (fromId e, toId e))"
  by (auto simp: fun_eq_iff)

lemma filter_merge:
  "filter (\<lambda>e. fromId e = f \<and> toId e = t)
     (map (\<lambda>e. if fromId e = f \<and> toId e = t then e\<lparr> edgeFlags := edgeFlags e OR fl \<rparr> else e) xs)
   = map (\<lambda>e. e\<lparr> edgeFlags := edgeFlags e OR fl \<rparr>) (filter (\<lambda>e. fromId e = f \<and> toId e = t) xs)"
  by (induction xs) auto

lemma cancelTimer_edges: "edges (cancelTimer eco t) = edges eco"
  by (simp add: cancelTimer_def split: option.splits)

lemma addEdge_oneEdgePerPair:
  assumes "oneEdgePerPair eco"
  shows "oneEdgePerPair (addEdge eco f t fl cb op)"
proof (cases "edgesBetween eco f t = []")
  case False
  then show ?thesis
    using assms by (simp add: addEdge_existing_edges oneEdgePerPair_def endpoints_merge)
next
  case True
  then have "(f, t) \<notin> set (map (\<lambda>e. (fromId e, toId e)) (edges eco))"
    by (auto simp: edgesBetween_def filter_empty_conv)
  then show ?thesis
    using assms True
    by (simp add: addEdge_def oneEdgePerPair_def cancelTimer_edges)
qed

text \<open>
  C5. For an existing edge, \<open>addEdge\<close> with the same endpoints leaves exactly one
  edge between them: the old edge with the new flags OR-ed into its flags and with its
  own \<open>notify\<close> callback, not the one supplied. No edge is added, and a further call
  with the same flags changes nothing.
\<close>

theorem addEdge_existing:
  assumes "oneEdgePerPair eco" and "e \<in> set (edges eco)"
    and "fromId e = f" and "toId e = t"
  shows "edgesBetween (addEdge eco f t fl cb op) f t = [e\<lparr> edgeFlags := edgeFlags e OR fl \<rparr>] \<and>
         notify (e\<lparr> edgeFlags := edgeFlags e OR fl \<rparr>) = notify e \<and>
         length (edges (addEdge eco f t fl cb op)) = length (edges eco) \<and>
         oneEdgePerPair (addEdge eco f t fl cb op) \<and>
         addEdge (addEdge eco f t fl cb op) f t fl cb' op' = addEdge eco f t fl cb op"
proof -
  have single: "edgesBetween eco f t = [e]"
    using edgesBetween_single [OF assms(1,2)] assms(3,4) by simp
  then have ex: "edgesBetween eco f t \<noteq> []" by simp
  let ?eco = "addEdge eco f t fl cb op"
  have a: "edgesBetween ?eco f t = [e\<lparr> edgeFlags := edgeFlags e OR fl \<rparr>]"
    using single by (simp add: addEdge_existing_edges [OF ex] edgesBetween_def filter_merge)
  then have ex2: "edgesBetween ?eco f t \<noteq> []" by simp
  have idem: "addEdge ?eco f t fl cb' op' = ?eco"
    by (simp add: addEdge_existing_edges [OF ex2])
       (simp add: addEdge_existing_edges [OF ex] comp_def or.assoc cong: if_cong)
  have len: "length (edges ?eco) = length (edges eco)"
    by (simp add: addEdge_existing_edges [OF ex])
  have inv: "oneEdgePerPair ?eco"
    by (rule addEdge_oneEdgePerPair [OF assms(1)])
  show ?thesis
    using a idem len inv by simp
qed

subsection \<open>Destruction\<close>

lemma markEligible_fields [simp]:
  "edges (markEligible eco d) = edges eco"
  "delivered (markEligible eco d) = delivered eco"
  "destroyedNodes (markEligible eco d) = destroyedNodes eco"
  "overridesById (markEligible eco d) = overridesById eco"
  "clock (markEligible eco d) = clock eco"
  by (simp_all add: markEligible_def split: option.splits)

lemma getNodeById_markEligible:
  "getNodeById (markEligible eco d) i =
     (if i = d
      then map_option (\<lambda>nd. case ttl nd of None \<Rightarrow> nd
                                | Some x \<Rightarrow> nd\<lparr> ttlTimer := Some (clock eco + x) \<rparr>)
             (getNodeById eco d)
      else getNodeById eco i)"
  by (auto simp: markEligible_def getNodeById_def update_conv' split: option.splits)

lemma getNodeById_markEligible_None [simp]:
  "getNodeById (markEligible eco d) i = None \<longleftrightarrow> getNodeById eco i = None"
  by (simp add: getNodeById_markEligible)

lemma releaseDependency_fields [simp]:
  "edges (releaseDependency d eco) = edges eco"
  "delivered (releaseDependency d eco) = delivered eco"
  "destroyedNodes (releaseDependency d eco) = destroyedNodes eco"
  "overridesById (releaseDependency d eco) = overridesById eco"
  "clock (releaseDependency d eco) = clock eco"
  by (simp_all add: releaseDependency_def)

lemma getNodeById_releaseDependency_None [simp]:
  "getNodeById (releaseDependency d eco) i = None \<longleftrightarrow> getNodeById eco i = None"
  by (simp add: releaseDependency_def)

lemma fold_releaseDependency_fields [simp]:
  "edges (fold releaseDependency ds eco) = edges eco"
  "delivered (fold releaseDependency ds eco) = delivered eco"
  "destroyedNodes (fold releaseDependency ds eco) = destroyedNodes eco"
  "overridesById (fold releaseDependency ds eco) = overridesById eco"
  "clock (fold releaseDependency ds eco) = clock eco"
  by (induction ds arbitrary: eco) simp_all

lemma getNodeById_fold_releaseDependency_None [simp]:
  "getNodeById (fold releaseDependency ds eco) i = None \<longleftrightarrow> getNodeById eco i = None"
  by (induction ds arbitrary: eco) simp_all

lemma scheduleNotify_fields [simp]:
  "edges (scheduleNotify eco i r v) = edges eco"
  "registry (scheduleNotify eco i r v) = registry eco"
  "destroyedNodes (scheduleNotify eco i r v) = destroyedNodes eco"
  "overridesById (scheduleNotify eco i r v) = overridesById eco"
  "clock (scheduleNotify eco i r v) = clock eco"
  "delivered (scheduleNotify eco i r v)
     = delivered eco @ map (deliveryOver r v) (notifiedEdges eco i r)"
  by (simp_all add: scheduleNotify_def)

lemma destroyNode_unregistered:
  "getNodeById eco i = None \<Longrightarrow> destroyNode eco i = eco"
  by (simp add: destroyNode_def)

lemma notifiedEdges_cong:
  "edges eco' = edges eco \<Longrightarrow> registry eco' = registry eco
     \<Longrightarrow> notifiedEdges eco' i r = notifiedEdges eco i r"
proof -
  assume e: "edges eco' = edges eco" and r: "registry eco' = registry eco"
  have d: "\<And>j. dependencyEdges eco' j = dependencyEdges eco j"
    by (simp add: dependencyEdges_def e)
  have a: "\<And>j. isAtomInstance eco' j = isAtomInstance eco j"
    by (simp add: isAtomInstance_def getNodeById_def r)
  have "\<And>k j. weightTo k eco' j = weightTo k eco j"
  proof -
    fix k j show "weightTo k eco' j = weightTo k eco j"
      by (induction k arbitrary: j) (simp_all add: d a)
  qed
  then have "\<And>j. weight eco' j = weight eco j"
    by (simp add: weight_def r)
  then show ?thesis
    by (simp add: notifiedEdges_def dependentEdges_def e)
qed

lemma destroyNode_registered:
  assumes "getNodeById eco i = Some nd"
  shows "edges (destroyNode eco i) = filter (\<lambda>e. toId e \<noteq> i \<and> fromId e \<noteq> i) (edges eco)"
    and "delivered (destroyNode eco i)
           = delivered eco @ map (deliveryOver destroyed None) (notifiedEdges eco i destroyed)"
    and "destroyedNodes (destroyNode eco i)
           = destroyedNodes eco @ [nd\<lparr> lifecycle := Destroyed, ttlTimer := None \<rparr>]"
    and "overridesById (destroyNode eco i) = overridesById eco"
    and "clock (destroyNode eco i) = clock eco"
proof -
  have n: "notifiedEdges
      (eco\<lparr> destructorLog := destructorLog eco @ map (Pair i) (rev (destructors nd)) \<rparr>) i destroyed
      = notifiedEdges eco i destroyed"
    by (rule notifiedEdges_cong) simp_all
  show "edges (destroyNode eco i) = filter (\<lambda>e. toId e \<noteq> i \<and> fromId e \<noteq> i) (edges eco)"
    using assms by (simp add: destroyNode_def Let_def)
  show "delivered (destroyNode eco i)
           = delivered eco @ map (deliveryOver destroyed None) (notifiedEdges eco i destroyed)"
    using assms n by (simp add: destroyNode_def Let_def)
  show "destroyedNodes (destroyNode eco i)
           = destroyedNodes eco @ [nd\<lparr> lifecycle := Destroyed, ttlTimer := None \<rparr>]"
    using assms by (simp add: destroyNode_def Let_def)
  show "overridesById (destroyNode eco i) = overridesById eco"
    using assms by (simp add: destroyNode_def Let_def)
  show "clock (destroyNode eco i) = clock eco"
    using assms by (simp add: destroyNode_def Let_def)
qed

lemma getNodeById_destroyNode_None:
  "getNodeById (destroyNode eco j) i = None \<longleftrightarrow> i = j \<or> getNodeById eco i = None"
proof (cases "getNodeById eco j")
  case None
  then show ?thesis by (auto simp: destroyNode_unregistered)
next
  case (Some nd)
  have "getNodeById (destroyNode eco j) i = None \<longleftrightarrow>
        map_of (AList.delete j (registry eco)) i = None"
    using Some by (simp add: destroyNode_def Let_def) (simp add: getNodeById_def)
  then show ?thesis
    by (auto simp: getNodeById_def delete_conv')
qed

lemma getNodeById_fold_destroyNode_None:
  "getNodeById (fold (\<lambda>i e. destroyNode e i) js eco) i = None
     \<longleftrightarrow> i \<in> set js \<or> getNodeById eco i = None"
  by (induction js arbitrary: eco) (auto simp: getNodeById_destroyNode_None)

lemma delivered_destroyNode_mono:
  "set (delivered eco) \<subseteq> set (delivered (destroyNode eco j))"
proof (cases "getNodeById eco j")
  case None
  then show ?thesis by (simp add: destroyNode_unregistered)
next
  case (Some nd)
  then show ?thesis by (simp add: destroyNode_registered(2))
qed

lemma delivered_fold_destroyNode_mono:
  "set (delivered eco) \<subseteq> set (delivered (fold (\<lambda>i e. destroyNode e i) js eco))"
proof (induction js arbitrary: eco)
  case Nil
  then show ?case by simp
next
  case (Cons j js)
  show ?case
    using delivered_destroyNode_mono [of eco j] Cons [of "destroyNode eco j"] by auto
qed

lemma overridesById_fold_destroyNode [simp]:
  "overridesById (fold (\<lambda>i e. destroyNode e i) js eco) = overridesById eco"
proof (induction js arbitrary: eco)
  case Nil
  then show ?case by simp
next
  case (Cons j js)
  have "overridesById (destroyNode eco j) = overridesById eco"
    by (cases "getNodeById eco j")
       (simp_all add: destroyNode_unregistered destroyNode_registered(4))
  then show ?case using Cons by simp
qed




subsection \<open>A component mounted on a counter\<close>

text \<open>
  The ecosystem after a component has rendered \<open>useAtomInstance(countAtom)\<close> once: the
  instance of the counter, the node of the component and the static edge between them.
\<close>

definition staticConfig :: ZeduxHookConfig where
  "staticConfig = \<lparr> hookOperation = None, subscribe = None, suspend = None \<rparr>"

definition mountedEcosystem :: Ecosystem where
  "mountedEcosystem =
     snd (useAtomInstance emptyEcosystem ''component-1'' 100 countTemplate None staticConfig)"

definition countInstanceNode :: Node where
  "countInstanceNode =
     \<lparr> nodeId = ''count-[]'', variant = AtomInstanceNode, lifecycle = Active,
       templateKey = ''count'', paramsHash = ''[]'', params = [], stateHolder = DNum 0,
       exports = DUndefined, promise = None, promiseStatus = Idle, promiseError = None,
       isPromiseResolved = False, destructors = [], ttl = Some 0, ttlTimer = None,
       overrideOf = None, serial = 0 \<rparr>"

definition componentEdge :: Edge where
  "componentEdge =
     \<lparr> fromId = ''component-1'', toId = ''count-[]'', edgeFlags = 6,
       operation = ''useAtomInstance'', notify = Some 100 \<rparr>"

lemma instanceId_count: "instanceId ''count'' [] = ''count-[]''"
  by (simp add: instanceId_def hashParams_def)

lemma getNode_count:
  "getNode emptyEcosystem countTemplate None =
     Inr (countInstanceNode,
          emptyEcosystem\<lparr> registry := [(''count-[]'', countInstanceNode)], nextSerial := 1 \<rparr>)"
  by (simp add: getNode_def createInstance_def initializingNode_def activate_def
      getNodeById_def emptyEcosystem_def countTemplate_def resolveTemplate_def Let_def
      instanceId_count countInstanceNode_def hashParams_def)

lemma mountedEcosystem_eq:
  "mountedEcosystem =
     \<lparr> registry = [(''count-[]'', countInstanceNode),
                   (''component-1'', externalNode (emptyEcosystem\<lparr> nextSerial := 1 \<rparr>) ''component-1'')],
       edges = [componentEdge], overridesById = [], clock = 0, nextSerial = 2,
       delivered = [], destroyedNodes = [], destructorLog = [] \<rparr>"
  unfolding mountedEcosystem_def useAtomInstance_def getNode_count
  by (simp add: Let_def
      ensureExternalNode_def getNodeById_def emptyEcosystem_def edgesBetween_def addEdge_def
      cancelTimer_def countInstanceNode_def staticConfig_def useAtomInstance_flags_def
      External_def Static_def OPERATION_def componentEdge_def externalNode_def)


theorem addEdge_existing_witness:
  "oneEdgePerPair mountedEcosystem \<and> componentEdge \<in> set (edges mountedEcosystem) \<and>
   fromId componentEdge = ''component-1'' \<and> toId componentEdge = ''count-[]'' \<and>
   edgesBetween
     (addEdge mountedEcosystem ''component-1'' ''count-[]'' Explicit (Some 200) ''get'')
     ''component-1'' ''count-[]'' = [componentEdge\<lparr> edgeFlags := 7 \<rparr>] \<and>
   notify (componentEdge\<lparr> edgeFlags := 7 \<rparr>) = Some 100"
proof -
  have a: "oneEdgePerPair mountedEcosystem" "componentEdge \<in> set (edges mountedEcosystem)"
    by (simp_all add: oneEdgePerPair_def mountedEcosystem_eq)
  have b: "fromId componentEdge = ''component-1''" "toId componentEdge = ''count-[]''"
      "edgeFlags componentEdge OR Explicit = 7" "notify componentEdge = Some 100"
    by (simp_all add: componentEdge_def Explicit_def)
  show ?thesis
    using addEdge_existing [OF a b(1,2), of Explicit "Some 200" "''get''"] a b
    by simp
qed

subsection \<open>Removing the last dependent\<close>

lemma removeEdge_last:
  assumes "dependentEdges eco t = [e]" and "fromId e = f"
  shows "removeEdge eco f t =
     (let eco1 = eco\<lparr> edges := filter (\<lambda>x. \<not> (fromId x = f \<and> toId x = t)) (edges eco) \<rparr>
      in case getNodeById eco t of
           None \<Rightarrow> eco1
         | Some nd \<Rightarrow> if ttl nd = Some 0 then destroyNode eco1 t else markEligible eco1 t)"
proof -
  have "e \<in> set (dependentEdges eco t)" using assms(1) by simp
  then have e: "e \<in> set (edges eco)" "toId e = t"
    by (simp_all add: dependentEdges_def)
  then have ex: "edgesBetween eco f t \<noteq> []"
    using assms(2) by (auto simp: edgesBetween_def filter_empty_conv)
  have "filter (\<lambda>x. toId x = t) (filter (\<lambda>x. \<not> (fromId x = f \<and> toId x = t)) (edges eco))
      = filter (\<lambda>x. \<not> (fromId x = f \<and> toId x = t)) (filter (\<lambda>x. toId x = t) (edges eco))"
    by (simp add: conj_commute)
  also have "\<dots> = []"
    using assms by (simp add: dependentEdges_def e(2))
  finally have gone: "dependentEdges
      (eco\<lparr> edges := filter (\<lambda>x. \<not> (fromId x = f \<and> toId x = t)) (edges eco) \<rparr>) t = []"
    by (simp add: dependentEdges_def)
  show ?thesis
    using ex gone by (simp add: removeEdge_def Let_def getNodeById_def)
qed

lemma removeEdge_edgesBetween: "edgesBetween (removeEdge eco f t) f t = []"
proof (cases "edgesBetween eco f t = []")
  case True
  then show ?thesis by (simp add: removeEdge_def)
next
  case False
  let ?eco1 = "eco\<lparr> edges := filter (\<lambda>x. \<not> (fromId x = f \<and> toId x = t)) (edges eco) \<rparr>"
  have one: "edgesBetween ?eco1 f t = []"
    by (simp add: edgesBetween_def)
  have d: "edgesBetween (destroyNode ?eco1 t) f t = []"
  proof (cases "getNodeById ?eco1 t")
    case None
    then show ?thesis using one by (simp add: destroyNode_unregistered)
  next
    case (Some nd)
    show ?thesis
      using destroyNode_registered(1) [OF Some]
      by (auto simp: edgesBetween_def filter_empty_conv)
  qed
  have m: "edgesBetween (markEligible ?eco1 t) f t = []"
    using one by (simp add: edgesBetween_def)
  show ?thesis
    using False one d m
    by (simp add: removeEdge_def Let_def split: option.splits)
qed

lemma advanceClock_due:
  assumes "getNodeById eco t = Some nd" and "ttlTimer nd = Some due" and "due \<le> now"
  shows "getNodeById (advanceClock eco now) t = None"
proof -
  have "(t, nd) \<in> set (registry eco)"
    using assms(1) by (simp add: getNodeById_def map_of_SomeD)
  then have "t \<in> set (map fst (filter (\<lambda>entry. timerDue now (snd entry)) (registry eco)))"
    using assms(2,3) by (force simp: timerDue_def)
  then show ?thesis
    by (simp add: advanceClock_def getNodeById_fold_destroyNode_None)
qed

text \<open>
  C6. When \<open>removeEdge\<close> removes the edge that was the last dependent of a registered
  node \<open>toId\<close>, the edge is gone and: with ttl 0 the node is destroyed within that
  step (it has left the registry and is recorded as \<open>Destroyed\<close>); with another
  finite ttl it stays registered and becomes eligible for ttl-based destruction, its
  timer set to the ttl from now, so that the clock reaching that time destroys it; with
  no ttl it is left as it is.
\<close>

theorem removeEdge_last_dependent:
  assumes "dependentEdges eco t = [e]" and "fromId e = f"
    and "getNodeById eco t = Some nd"
  shows "edgesBetween (removeEdge eco f t) f t = [] \<and>
         (ttl nd = Some 0 \<longrightarrow>
            getNodeById (removeEdge eco f t) t = None \<and>
            destroyedNodes (removeEdge eco f t)
              = destroyedNodes eco @ [nd\<lparr> lifecycle := Destroyed, ttlTimer := None \<rparr>]) \<and>
         (ttl nd = Some d \<and> 0 < d \<longrightarrow>
            getNodeById (removeEdge eco f t) t = Some (nd\<lparr> ttlTimer := Some (clock eco + d) \<rparr>) \<and>
            destroyedNodes (removeEdge eco f t) = destroyedNodes eco \<and>
            getNodeById (advanceClock (removeEdge eco f t) (clock eco + d)) t = None) \<and>
         (ttl nd = None \<longrightarrow>
            getNodeById (removeEdge eco f t) t = Some nd \<and>
            destroyedNodes (removeEdge eco f t) = destroyedNodes eco)"
proof -
  let ?eco1 = "eco\<lparr> edges := filter (\<lambda>x. \<not> (fromId x = f \<and> toId x = t)) (edges eco) \<rparr>"
  have reg: "getNodeById ?eco1 t = Some nd"
    using assms(3) by (simp add: getNodeById_def)
  have r: "removeEdge eco f t = (if ttl nd = Some 0 then destroyNode ?eco1 t else markEligible ?eco1 t)"
    using removeEdge_last [OF assms(1,2)] assms(3) by (simp add: Let_def)
  have zero: "getNodeById (removeEdge eco f t) t = None \<and>
      destroyedNodes (removeEdge eco f t)
        = destroyedNodes eco @ [nd\<lparr> lifecycle := Destroyed, ttlTimer := None \<rparr>]"
    if "ttl nd = Some 0"
    using that r destroyNode_registered(3) [OF reg]
    by (simp add: getNodeById_destroyNode_None)
  have pos: "getNodeById (removeEdge eco f t) t = Some (nd\<lparr> ttlTimer := Some (clock eco + d) \<rparr>) \<and>
      destroyedNodes (removeEdge eco f t) = destroyedNodes eco"
    if "ttl nd = Some d \<and> 0 < d"
    using that r reg by (simp add: getNodeById_markEligible)
  have due: "getNodeById (advanceClock (removeEdge eco f t) (clock eco + d)) t = None"
    if "ttl nd = Some d \<and> 0 < d"
  proof -
    have p: "getNodeById (removeEdge eco f t) t = Some (nd\<lparr> ttlTimer := Some (clock eco + d) \<rparr>)"
      using pos [OF that] by simp
    show ?thesis
      by (rule advanceClock_due [OF p, where due = "clock eco + d"]) simp_all
  qed
  have none: "getNodeById (removeEdge eco f t) t = Some nd \<and>
      destroyedNodes (removeEdge eco f t) = destroyedNodes eco"
    if "ttl nd = None"
    using that r reg by (simp add: getNodeById_markEligible)
  show ?thesis
    using removeEdge_edgesBetween [of eco f t] zero pos due none by blast
qed

subsection \<open>Static edges\<close>



lemma getNode_edges:
  assumes "getNode eco T ps = Inr (inst, eco1)"
  shows "edges eco1 = edges eco"
proof (cases "getNodeById eco (instanceId (template_key T)
    (case ps of None \<Rightarrow> [] | Some xs \<Rightarrow> xs))")
  case None
  then have "createInstance eco T (case ps of None \<Rightarrow> [] | Some xs \<Rightarrow> xs) = Inr (inst, eco1)"
    using assms by (simp add: getNode_def Let_def split: if_splits)
  then show ?thesis
    by (auto simp: createInstance_def Let_def split: factoryOutcome.splits)
next
  case (Some nd)
  then show ?thesis
    using assms by (simp add: getNode_def Let_def split: if_splits)
qed

lemma ensureExternalNode_edges [simp]: "edges (ensureExternalNode eco obs) = edges eco"
  by (simp add: ensureExternalNode_def split: option.splits)



lemma setState_delivered:
  assumes "setState eco i v = Inr eco'"
  shows "delivered eco' = delivered eco @
           map (deliveryOver stateChanged (Some v)) (notifiedEdges eco' i stateChanged)"
    and "edges eco' = edges eco"
proof -
  obtain nd where nd: "getNodeById eco i = Some nd"
    using assms by (cases "getNodeById eco i") (simp_all add: setState_def)
  let ?eco1 = "eco\<lparr> registry := AList.update i (nd\<lparr> stateHolder := v \<rparr>) (registry eco) \<rparr>"
  have eq: "eco' = scheduleNotify ?eco1 i stateChanged (Some v)"
    using assms nd by (simp add: setState_def)
  have n: "notifiedEdges eco' i stateChanged = notifiedEdges ?eco1 i stateChanged"
    by (rule notifiedEdges_cong) (simp_all add: eq)
  show "delivered eco' = delivered eco @
           map (deliveryOver stateChanged (Some v)) (notifiedEdges eco' i stateChanged)"
    unfolding n by (simp add: eq)
  show "edges eco' = edges eco"
    by (simp add: eq)
qed



subsection \<open>The mounted component, released and notified\<close>

text \<open>The same component mounted on a counter whose template has a ttl of 50.\<close>

definition lingeringEcosystem :: Ecosystem where
  "lingeringEcosystem =
     snd (useAtomInstance emptyEcosystem ''component-1'' 100
            (countTemplate\<lparr> template_ttl := Some 50 \<rparr>) None staticConfig)"

lemma getNode_lingering:
  "getNode emptyEcosystem (countTemplate\<lparr> template_ttl := Some 50 \<rparr>) None =
     Inr (countInstanceNode\<lparr> ttl := Some 50 \<rparr>,
          emptyEcosystem\<lparr> registry := [(''count-[]'', countInstanceNode\<lparr> ttl := Some 50 \<rparr>)],
                           nextSerial := 1 \<rparr>)"
  by (simp add: getNode_def createInstance_def initializingNode_def activate_def
      getNodeById_def emptyEcosystem_def countTemplate_def resolveTemplate_def Let_def
      instanceId_count countInstanceNode_def hashParams_def)

lemma lingeringEcosystem_eq:
  "lingeringEcosystem =
     \<lparr> registry = [(''count-[]'', countInstanceNode\<lparr> ttl := Some 50 \<rparr>),
                   (''component-1'', externalNode (emptyEcosystem\<lparr> nextSerial := 1 \<rparr>) ''component-1'')],
       edges = [componentEdge], overridesById = [], clock = 0, nextSerial = 2,
       delivered = [], destroyedNodes = [], destructorLog = [] \<rparr>"
  unfolding lingeringEcosystem_def useAtomInstance_def getNode_lingering
  by (simp add: Let_def
      ensureExternalNode_def getNodeById_def emptyEcosystem_def edgesBetween_def addEdge_def
      cancelTimer_def countInstanceNode_def staticConfig_def useAtomInstance_flags_def
      External_def Static_def OPERATION_def componentEdge_def externalNode_def)

lemma mounted_facts:
  "dependentEdges mountedEcosystem ''count-[]'' = [componentEdge]"
  "getNodeById mountedEcosystem ''count-[]'' = Some countInstanceNode"
  "destroyedNodes mountedEcosystem = []"
  "delivered mountedEcosystem = []"
  "oneEdgePerPair mountedEcosystem"
  "componentEdge \<in> set (edges mountedEcosystem)"
  by (simp_all add: mountedEcosystem_eq dependentEdges_def getNodeById_def componentEdge_def
      oneEdgePerPair_def)

lemma lingering_facts:
  "dependentEdges lingeringEcosystem ''count-[]'' = [componentEdge]"
  "getNodeById lingeringEcosystem ''count-[]'' = Some (countInstanceNode\<lparr> ttl := Some 50 \<rparr>)"
  "clock lingeringEcosystem = 0"
  by (simp_all add: lingeringEcosystem_eq dependentEdges_def getNodeById_def componentEdge_def)

lemma componentEdge_facts:
  "fromId componentEdge = ''component-1''" "toId componentEdge = ''count-[]''"
  "notify componentEdge = Some 100" "edgeFlags componentEdge = External OR Static"
  "hasFlag (edgeFlags componentEdge) Static"
  by (simp_all add: componentEdge_def External_def Static_def hasFlag_def)

theorem removeEdge_last_dependent_witness:
  "dependentEdges mountedEcosystem ''count-[]'' = [componentEdge] \<and>
   fromId componentEdge = ''component-1'' \<and>
   getNodeById mountedEcosystem ''count-[]'' = Some countInstanceNode \<and>
   ttl countInstanceNode = Some 0 \<and>
   getNodeById (removeEdge mountedEcosystem ''component-1'' ''count-[]'') ''count-[]'' = None \<and>
   destroyedNodes (removeEdge mountedEcosystem ''component-1'' ''count-[]'')
     = [countInstanceNode\<lparr> lifecycle := Destroyed, ttlTimer := None \<rparr>] \<and>
   dependentEdges lingeringEcosystem ''count-[]'' = [componentEdge] \<and>
   getNodeById lingeringEcosystem ''count-[]'' = Some (countInstanceNode\<lparr> ttl := Some 50 \<rparr>) \<and>
   getNodeById (removeEdge lingeringEcosystem ''component-1'' ''count-[]'') ''count-[]''
     = Some (countInstanceNode\<lparr> ttl := Some 50, ttlTimer := Some 50 \<rparr>) \<and>
   getNodeById (advanceClock (removeEdge lingeringEcosystem ''component-1'' ''count-[]'') 50)
     ''count-[]'' = None"
proof -
  have z: "ttl countInstanceNode = Some 0"
    by (simp add: countInstanceNode_def)
  show ?thesis
    using removeEdge_last_dependent [OF mounted_facts(1) componentEdge_facts(1) mounted_facts(2),
        of 0]
      removeEdge_last_dependent [OF lingering_facts(1) componentEdge_facts(1) lingering_facts(2),
        of 50]
      z mounted_facts lingering_facts componentEdge_facts(1)
    by simp
qed


subsection \<open>Replacing a template\<close>












lemma overrides_eq:
  "overrides eco ts =
     fold (\<lambda>i e. destroyNode e i) (markedInstances eco (overrideTable ts))
       (eco\<lparr> overridesById := overrideTable ts \<rparr>)"
  by (simp add: overrides_def Let_def)






subsection \<open>One edge per pair of endpoints, in every ecosystem the operations build\<close>

lemma oneEdgePerPair_empty: "oneEdgePerPair emptyEcosystem"
  by (simp add: oneEdgePerPair_def emptyEcosystem_def)

lemma oneEdgePerPair_filter:
  assumes "oneEdgePerPair eco" and "edges eco' = filter P (edges eco)"
  shows "oneEdgePerPair eco'"
  using assms by (simp add: oneEdgePerPair_def distinct_map_filter)

lemma oneEdgePerPair_same:
  assumes "oneEdgePerPair eco" and "edges eco' = edges eco"
  shows "oneEdgePerPair eco'"
  using assms by (simp add: oneEdgePerPair_def)

lemma destroyNode_oneEdgePerPair:
  assumes "oneEdgePerPair eco"
  shows "oneEdgePerPair (destroyNode eco j)"
proof (cases "getNodeById eco j")
  case None
  then show ?thesis using assms by (simp add: destroyNode_unregistered)
next
  case (Some nd)
  show ?thesis
    by (rule oneEdgePerPair_filter [OF assms destroyNode_registered(1) [OF Some]])
qed

lemma fold_destroyNode_oneEdgePerPair:
  "oneEdgePerPair eco \<Longrightarrow> oneEdgePerPair (fold (\<lambda>i e. destroyNode e i) js eco)"
  by (induction js arbitrary: eco) (simp_all add: destroyNode_oneEdgePerPair)

lemma removeEdge_oneEdgePerPair:
  assumes "oneEdgePerPair eco"
  shows "oneEdgePerPair (removeEdge eco f t)"
proof -
  let ?eco1 = "eco\<lparr> edges := filter (\<lambda>e. \<not> (fromId e = f \<and> toId e = t)) (edges eco) \<rparr>"
  have one: "oneEdgePerPair ?eco1"
    by (rule oneEdgePerPair_filter [OF assms]) simp
  have two: "oneEdgePerPair (destroyNode ?eco1 t)"
    by (rule destroyNode_oneEdgePerPair [OF one])
  have three: "oneEdgePerPair (markEligible ?eco1 t)"
    by (rule oneEdgePerPair_same [OF one]) simp
  show ?thesis
    using assms one two three by (simp add: removeEdge_def Let_def split: option.splits)
qed

lemma overrides_oneEdgePerPair:
  assumes "oneEdgePerPair eco"
  shows "oneEdgePerPair (overrides eco ts)"
proof -
  have "oneEdgePerPair (eco\<lparr> overridesById := overrideTable ts \<rparr>)"
    by (rule oneEdgePerPair_same [OF assms]) simp
  then show ?thesis
    unfolding overrides_eq by (rule fold_destroyNode_oneEdgePerPair)
qed

lemma advanceClock_oneEdgePerPair:
  assumes "oneEdgePerPair eco"
  shows "oneEdgePerPair (advanceClock eco now)"
proof -
  have "oneEdgePerPair (eco\<lparr> clock := max (clock eco) now \<rparr>)"
    by (rule oneEdgePerPair_same [OF assms]) simp
  then show ?thesis
    unfolding advanceClock_def by (rule fold_destroyNode_oneEdgePerPair)
qed

lemma setState_oneEdgePerPair:
  assumes "oneEdgePerPair eco" and "setState eco i v = Inr eco'"
  shows "oneEdgePerPair eco'"
  by (rule oneEdgePerPair_same [OF assms(1) setState_delivered(2) [OF assms(2)]])

lemma getNode_oneEdgePerPair:
  assumes "oneEdgePerPair eco" and "getNode eco T ps = Inr (inst, eco1)"
  shows "oneEdgePerPair eco1"
  by (rule oneEdgePerPair_same [OF assms(1) getNode_edges [OF assms(2)]])

lemma useAtomInstance_oneEdgePerPair:
  assumes "oneEdgePerPair eco"
  shows "oneEdgePerPair (snd (useAtomInstance eco obs render T ps cfg))"
proof (cases "getNode eco T ps")
  case (Inl err)
  then show ?thesis using assms by (simp add: useAtomInstance_def)
next
  case (Inr r)
  obtain inst eco1 where r: "r = (inst, eco1)" by (cases r)
  have "oneEdgePerPair eco1"
    using getNode_oneEdgePerPair [OF assms] Inr r by simp
  then have two: "oneEdgePerPair (ensureExternalNode eco1 obs)"
    by (rule oneEdgePerPair_same) simp
  show ?thesis
    using Inr r two addEdge_oneEdgePerPair [OF two]
    by (simp add: useAtomInstance_def Let_def)
qed

end
